theory Spec2Isabelle
  imports Complex_Main "HOL-Library.Option_ord" "HOL-Library.Char_ord" "HOL-Library.List_Lexorder"
begin

section \<open>Values, errors and randomness\<close>

text \<open>
  The evolution strategies of the repository (\<^verbatim>\<open>src/pbt/evolution.py\<close>) and its
  hyper-parameter class (\<^verbatim>\<open>src/PopulationBasedTraining/hyperparameters.py\<close>) are
  embedded as HOL functions.  Python's \<^verbatim>\<open>int\<close> is \<^typ>\<open>int\<close>.  Python's
  \<^verbatim>\<open>float\<close> is embedded as \<^typ>\<open>real\<close>, and the one special value the code tests
  for (\<^verbatim>\<open>math.isnan\<close>) is a constructor of its own.  Where the result of float
  arithmetic is rounded to an integer, compared with a length or read back as a value (the
  sizes of population, archive and elite, and the arithmetic of hyper-parameters), every
  operation is followed by the rounding \<open>fl64\<close> of binary64 below; where a float is only
  stored (scores, scale factors, crossover rates and their means) arithmetic is exact.
  Every \<^verbatim>\<open>raise\<close> and every failing
  \<^verbatim>\<open>assert\<close> is a value \<open>Inl e\<close> of a sum type; \<open>NoReturn\<close> is not an exception but
  the outcome of a rejection loop that has used up the draws it was given without
  leaving.  Calls of \<^verbatim>\<open>self.logger\<close> only print and are left out.
\<close>

datatype error =
    ValueError string
  | AssertionError string
  | TypeError
  | IndexError
  | KeyError
  | ZeroDivisionError
  | AttributeError string
  | Exception string
  | NoReturn

datatype pyfloat = NaN | Fl real

text \<open>
  A draw of \<^verbatim>\<open>random\<close> is an argument of the function that makes it: the raw
  number \<open>r\<close> stands for the state of the generator, and every value the call can return
  is the image of some \<open>r\<close>.  \<^verbatim>\<open>random.randrange(n)\<close> and \<^verbatim>\<open>random.randrange(0, n)\<close>
  raise \<^verbatim>\<open>ValueError\<close> on an empty range and on a number that is not integral.
\<close>

definition randrange :: "real \<Rightarrow> nat \<Rightarrow> error + nat" where
  "randrange n r =
     (if n \<noteq> of_int \<lfloor>n\<rfloor> then Inl (ValueError ''non-integer arg 1 for randrange()'')
      else if n \<le> 0 then Inl (ValueError ''empty range for randrange()'')
      else Inr (r mod nat \<lfloor>n\<rfloor>))"

text \<open>
  \<^verbatim>\<open>round(x)\<close> of Python 3 on a float: to the nearest integer, a tie to the even
  neighbour.
\<close>

definition py_round :: "real \<Rightarrow> int" where
  "py_round x =
     (let f = \<lfloor>x\<rfloor>; d = x - of_int f
      in if d < 1/2 then f else if 1/2 < d then f + 1 else if even f then f else f + 1)"

text \<open>
  The rounding of binary64: to the nearest number with a significand of 53 bits, a tie to
  the even significand.  For \<open>2\<^sup>e \<le> |x| < 2\<^sup>e\<^sup>+\<^sup>1\<close> the spacing of these numbers is
  \<open>2\<^sup>e\<^sup>-\<^sup>5\<^sup>2\<close>.  The range of the exponent is not bounded: overflow to infinity and
  the subnormal numbers are not part of the model.
\<close>

definition fl64 :: "real \<Rightarrow> real" where
  "fl64 x =
     (if x = 0 then 0
      else (let ulp = 2 powi (\<lfloor>log 2 \<bar>x\<bar>\<rfloor> - 52)
            in of_int (py_round (x / ulp)) * ulp))"

text \<open>The binary64 numbers, the values of a \<^verbatim>\<open>float\<close>, are the numbers that the
  rounding leaves as they are.\<close>

definition is_binary64 :: "real \<Rightarrow> bool" where
  "is_binary64 x \<longleftrightarrow> fl64 x = x"

text \<open>
  The operators \<^verbatim>\<open>+\<close>, \<^verbatim>\<open>-\<close>, \<^verbatim>\<open>*\<close> and \<^verbatim>\<open>/\<close> on floats (division by zero is
  raised by the caller), the conversion of an \<^verbatim>\<open>int\<close> operand, and the true division
  of two \<^verbatim>\<open>int\<close>s, which Python rounds once.
\<close>

definition fadd :: "real \<Rightarrow> real \<Rightarrow> real" where
  "fadd x y = fl64 (x + y)"

definition fsub :: "real \<Rightarrow> real \<Rightarrow> real" where
  "fsub x y = fl64 (x - y)"

definition fmul :: "real \<Rightarrow> real \<Rightarrow> real" where
  "fmul x y = fl64 (x * y)"

definition fdiv :: "real \<Rightarrow> real \<Rightarrow> real" where
  "fdiv x y = fl64 (x / y)"

definition float_of_int :: "int \<Rightarrow> real" where
  "float_of_int n = fl64 (of_int n)"

definition int_truediv :: "int \<Rightarrow> int \<Rightarrow> real" where
  "int_truediv a b = fl64 (of_int a / of_int b)"

text \<open>Sequencing of calls that may raise: the first exception ends the computation.\<close>

definition bindE :: "error + 'a \<Rightarrow> ('a \<Rightarrow> error + 'b) \<Rightarrow> error + 'b" where
  "bindE m f = (case m of Inl e \<Rightarrow> Inl e | Inr x \<Rightarrow> f x)"

text \<open>\<^verbatim>\<open>random.choice(xs)\<close>, which raises \<^verbatim>\<open>IndexError\<close> on an empty sequence.\<close>

definition choice :: "'a list \<Rightarrow> nat \<Rightarrow> error + 'a" where
  "choice xs r = (if xs = [] then Inl IndexError else Inr (xs ! (r mod length xs)))"

text \<open>
  \<^verbatim>\<open>xs[i]\<close> with an \<^verbatim>\<open>int\<close> index, which counts from the end when negative.
\<close>

definition py_getitem :: "'a list \<Rightarrow> int \<Rightarrow> error + 'a" where
  "py_getitem xs i =
     (if 0 \<le> i \<and> i < int (length xs) then Inr (xs ! nat i)
      else if i < 0 \<and> - int (length xs) \<le> i then Inr (xs ! nat (int (length xs) + i))
      else Inl IndexError)"

text \<open>\<^verbatim>\<open>del xs[i]\<close> for an index in range.\<close>

definition delete_at :: "nat \<Rightarrow> 'a list \<Rightarrow> 'a list" where
  "delete_at i xs = take i xs @ drop (Suc i) xs"

text \<open>Subtraction and \<^verbatim>\<open>abs\<close> on floats that may be NaN: NaN propagates.\<close>

fun py_sub :: "pyfloat \<Rightarrow> pyfloat \<Rightarrow> pyfloat" where
  "py_sub (Fl x) (Fl y) = Fl (x - y)"
| "py_sub _ _ = NaN"

fun py_abs :: "pyfloat \<Rightarrow> pyfloat" where
  "py_abs (Fl x) = Fl \<bar>x\<bar>"
| "py_abs NaN = NaN"

section \<open>Hyper-parameters\<close>

datatype pyval = PInt int | PFloat real | PStr string

fun is_number :: "pyval \<Rightarrow> bool" where
  "is_number (PInt _) = True"
| "is_number (PFloat _) = True"
| "is_number (PStr _) = False"

fun is_str :: "pyval \<Rightarrow> bool" where
  "is_str (PStr _) = True"
| "is_str _ = False"

fun num_of :: "pyval \<Rightarrow> real" where
  "num_of (PInt i) = of_int i"
| "num_of (PFloat x) = x"
| "num_of (PStr _) = 0"

fun str_of :: "pyval \<Rightarrow> string" where
  "str_of (PStr s) = s"
| "str_of _ = []"

text \<open>
  \<^verbatim>\<open>sorted(list(args))\<close>: numbers compare by value and strings lexicographically, the
  sort is stable, and comparing a string with a number raises \<^verbatim>\<open>TypeError\<close>.
\<close>

definition py_sorted :: "pyval list \<Rightarrow> error + pyval list" where
  "py_sorted xs =
     (if list_all is_number xs then Inr (sort_key num_of xs)
      else if list_all is_str xs then Inr (sort_key str_of xs)
      else Inl TypeError)"

record hyperparameter =
  search_space :: "pyval list"
  is_categorical :: bool
  hp_value :: "real option"

text \<open>\<^verbatim>\<open>Hyperparameter.__init__(self, *args, is_categorical=False)\<close>.\<close>

definition Hyperparameter_init :: "pyval list \<Rightarrow> bool \<Rightarrow> error + hyperparameter" where
  "Hyperparameter_init args is_cat =
     (if \<not> (args \<noteq> [] \<and> 1 < length args)
      then Inl (AssertionError ''Hyperparameter initialization needs at least two arguments.'')
      else if \<not> (\<not> is_cat \<and> is_number (hd args))
      then Inl (AssertionError ''Non-categorical hyperparameters must be of type float or int.'')
      else (case py_sorted args of
              Inl e \<Rightarrow> Inl e
            | Inr ss \<Rightarrow> Inr \<lparr>search_space = ss, is_categorical = is_cat, hp_value = None\<rparr>))"

text \<open>\<^verbatim>\<open>translate\<close> and \<^verbatim>\<open>clip\<close> of \<^verbatim>\<open>hyperparameters.py\<close>.\<close>

definition translate :: "real \<Rightarrow> real \<Rightarrow> real \<Rightarrow> real \<Rightarrow> real \<Rightarrow> error + real" where
  "translate v left_min left_max right_min right_max =
     (let left_span = fsub left_max left_min;
          right_span = fsub right_max right_min
      in if left_span = 0 then Inl ZeroDivisionError
         else (let value_normalized = fdiv (fsub v left_min) left_span
               in Inr (fadd right_min (fmul value_normalized right_span))))"

definition clip :: "real \<Rightarrow> real \<Rightarrow> real \<Rightarrow> real" where
  "clip v min_value max_value =
     (if v < min_value then min_value else if max_value < v then max_value else v)"

text \<open>\<^verbatim>\<open>==\<close>, \<^verbatim>\<open>in\<close> and \<^verbatim>\<open>list.index\<close> on the values of a search space.\<close>

fun py_eq :: "pyval \<Rightarrow> pyval \<Rightarrow> bool" where
  "py_eq (PStr a) (PStr b) = (a = b)"
| "py_eq (PStr _) _ = False"
| "py_eq _ (PStr _) = False"
| "py_eq a b = (num_of a = num_of b)"

fun py_index :: "pyval list \<Rightarrow> pyval \<Rightarrow> nat option" where
  "py_index [] v = None"
| "py_index (x # xs) v = (if py_eq x v then Some 0 else map_option Suc (py_index xs v))"

text \<open>\<^verbatim>\<open>get_lower_bound\<close> is \<^verbatim>\<open>self._search_space[0]\<close>, \<^verbatim>\<open>get_upper_bound\<close> is
  \<^verbatim>\<open>self._search_space[-1]\<close>.\<close>

definition get_lower_bound :: "hyperparameter \<Rightarrow> error + pyval" where
  "get_lower_bound hp = py_getitem (search_space hp) 0"

definition get_upper_bound :: "hyperparameter \<Rightarrow> error + pyval" where
  "get_upper_bound hp = py_getitem (search_space hp) (- 1)"

text \<open>
  \<^verbatim>\<open>translate\<close> between the bounds of the search space; arithmetic on a bound that
  is a string raises \<^verbatim>\<open>TypeError\<close>.
\<close>

definition bounds :: "hyperparameter \<Rightarrow> error + real \<times> real" where
  "bounds hp =
     (case get_lower_bound hp of
        Inl e \<Rightarrow> Inl e
      | Inr lo \<Rightarrow>
          (case get_upper_bound hp of
             Inl e \<Rightarrow> Inl e
           | Inr hi \<Rightarrow>
               if is_number lo \<and> is_number hi then Inr (num_of lo, num_of hi)
               else Inl TypeError))"

text \<open>\<^verbatim>\<open>Hyperparameter._get_normalized_value(self, value)\<close>.\<close>

definition get_normalized_value :: "hyperparameter \<Rightarrow> pyval \<Rightarrow> error + real" where
  "get_normalized_value hp v =
     (if is_categorical hp
      then (case py_index (search_space hp) v of
              None \<Rightarrow> Inl (AssertionError
                ''The provided value does not exist within the categorical search space.'')
            | Some index \<Rightarrow>
                translate (real index) 0 (real_of_int (int (length (search_space hp)) - 1)) 0 1)
      else if is_number v
      then (case bounds hp of
              Inl e \<Rightarrow> Inl e
            | Inr (lo, hi) \<Rightarrow> translate (num_of v) lo hi 0 1)
      else Inl (Exception ''Non-categorical values must be of type float or int.''))"

text \<open>\<^verbatim>\<open>Hyperparameter.set_value(self, value)\<close>.\<close>

definition set_value :: "hyperparameter \<Rightarrow> pyval \<Rightarrow> error + hyperparameter" where
  "set_value hp v =
     (case get_normalized_value hp v of
        Inl e \<Rightarrow> Inl e
      | Inr n \<Rightarrow> Inr (hp\<lparr>hp_value := Some (clip n 0 1)\<rparr>))"

text \<open>
  \<^verbatim>\<open>Hyperparameter.get_value(self)\<close>.  Before a value is sampled or set,
  \<^verbatim>\<open>self._value\<close> is \<^verbatim>\<open>None\<close> and the arithmetic of \<^verbatim>\<open>translate\<close> raises
  \<^verbatim>\<open>TypeError\<close>.
\<close>

definition get_value :: "hyperparameter \<Rightarrow> error + pyval" where
  "get_value hp =
     (if is_categorical hp
      then (case hp_value hp of
              None \<Rightarrow> Inl TypeError
            | Some u \<Rightarrow>
                (case translate u 0 1 0 (real_of_int (int (length (search_space hp)) - 1)) of
                   Inl e \<Rightarrow> Inl e
                 | Inr t \<Rightarrow> py_getitem (search_space hp) (py_round t)))
      else (case get_lower_bound hp of
              Inl e \<Rightarrow> Inl e
            | Inr (PFloat _) \<Rightarrow>
                (case hp_value hp of
                   None \<Rightarrow> Inl TypeError
                 | Some u \<Rightarrow>
                     (case bounds hp of
                        Inl e \<Rightarrow> Inl e
                      | Inr (lo, hi) \<Rightarrow>
                          (case translate u 0 1 lo hi of
                             Inl e \<Rightarrow> Inl e | Inr t \<Rightarrow> Inr (PFloat t))))
            | Inr (PInt _) \<Rightarrow>
                (case hp_value hp of
                   None \<Rightarrow> Inl TypeError
                 | Some u \<Rightarrow>
                     (case bounds hp of
                        Inl e \<Rightarrow> Inl e
                      | Inr (lo, hi) \<Rightarrow>
                          (case translate u 0 1 lo hi of
                             Inl e \<Rightarrow> Inl e | Inr t \<Rightarrow> Inr (PInt (py_round t)))))
            | Inr (PStr _) \<Rightarrow>
                Inl (Exception
                  ''Non-categorical hyperparameters must be of type float or int.'')))"

text \<open>The two calls one after the other: \<^verbatim>\<open>set_value(v)\<close>, then \<^verbatim>\<open>get_value()\<close>.\<close>

definition set_then_get :: "hyperparameter \<Rightarrow> pyval \<Rightarrow> error + pyval" where
  "set_then_get hp v = bindE (set_value hp v) get_value"

text \<open>
  \<^verbatim>\<open>Hyperparameter.__mul__(self, other)\<close> with a number: the product with the
  normalized value, clipped to \<open>[0, 1]\<close>.
\<close>

definition Hyperparameter_mul :: "real \<Rightarrow> real \<Rightarrow> real" where
  "Hyperparameter_mul u other = clip (fmul other u) 0 1"

section \<open>Members and their ordering\<close>

text \<open>
  Modelled from the spec: the module \<^verbatim>\<open>member\<close> (classes \<^verbatim>\<open>MemberState\<close> and
  \<^verbatim>\<open>Generation\<close>) is imported by \<^verbatim>\<open>evolution.py\<close> and is not among the sources.
  The spec gives a member an integer id, an ordered collection of hyper-parameters, of
  which the strategies read and write the normalized coordinate \<open>u\<close>, opaque state owned
  by the trainer, a score that is NaN when absent, and a \<^verbatim>\<open>minimize\<close> flag.  The
  opaque state is a token here.
\<close>

record member =
  mid :: int
  parameters :: "real list"
  opaque_state :: nat
  score :: pyfloat
  minimize :: bool

text \<open>
  Modelled from the spec: \<^emph>\<open>total ordering between members is induced by score and
  minimize: when minimizing, smaller score is "greater"; NaN scores sort as the worst\<close>.
  The rank of a member is \<open>None\<close> for a NaN score, below every \<open>Some\<close>.
\<close>

definition rank :: "member \<Rightarrow> real option" where
  "rank m = (case score m of NaN \<Rightarrow> None | Fl x \<Rightarrow> Some (if minimize m then - x else x))"

definition member_le :: "member \<Rightarrow> member \<Rightarrow> bool" where
  "member_le a b = (rank a \<le> rank b)"

definition member_lt :: "member \<Rightarrow> member \<Rightarrow> bool" where
  "member_lt a b = (rank a < rank b)"

text \<open>Modelled from the spec: \<^verbatim>\<open>MemberState.copy\<close> duplicates the member.\<close>

definition copy :: "member \<Rightarrow> member" where
  "copy m = m"

text \<open>
  Modelled from the spec: a member holds its hyper-parameters in order, and
  \<^verbatim>\<open>member[j]\<close> is the \<open>j\<close>-th of them, of which the model keeps the normalized
  coordinate; \<^verbatim>\<open>member[j] = v\<close> stores \<open>v\<close> as that coordinate.
  \<^verbatim>\<open>copy_parameters\<close> and \<^verbatim>\<open>copy_state\<close> take the parameters and the opaque state
  of another member.
\<close>

definition member_getitem :: "member \<Rightarrow> nat \<Rightarrow> error + real" where
  "member_getitem m j =
     (if j < length (parameters m) then Inr (parameters m ! j) else Inl IndexError)"

definition member_setitem :: "member \<Rightarrow> nat \<Rightarrow> real \<Rightarrow> error + member" where
  "member_setitem m j v =
     (if j < length (parameters m) then Inr (m\<lparr>parameters := (parameters m)[j := v]\<rparr>)
      else Inl IndexError)"

definition copy_parameters :: "member \<Rightarrow> member \<Rightarrow> member" where
  "copy_parameters m other = m\<lparr>parameters := parameters other\<rparr>"

definition copy_state :: "member \<Rightarrow> member \<Rightarrow> member" where
  "copy_state m other = m\<lparr>opaque_state := opaque_state other\<rparr>"

text \<open>
  Modelled from the spec: \<^verbatim>\<open>Generation\<close> (module \<^verbatim>\<open>member\<close>) is \<^emph>\<open>an ordered
  collection of members, indexed by member id (ids unique within a generation), with
  add, remove and iteration in insertion order\<close>.  A generation is the list of its
  members in insertion order, and \<^verbatim>\<open>generation.remove(m)\<close> takes out the entry with the
  id of \<open>m\<close>.
\<close>

type_synonym generation = "member list"

definition Generation_remove :: "member \<Rightarrow> generation \<Rightarrow> generation" where
  "Generation_remove m g = filter (\<lambda>x. mid x \<noteq> mid m) g"

text \<open>
  \<^verbatim>\<open>sorted(generation)\<close> and \<^verbatim>\<open>sorted(generation, reverse=True)\<close>: stable sorts
  under the member ordering, so members of equal rank keep their order in both.
\<close>

definition sorted_members :: "generation \<Rightarrow> member list" where
  "sorted_members g = sort_key rank g"

definition sorted_members_reverse :: "generation \<Rightarrow> member list" where
  "sorted_members_reverse g = rev (sort_key rank (rev g))"

section \<open>Helpers of the evolution strategies\<close>

text \<open>
  Modelled from the spec: the helpers \<^verbatim>\<open>de_rand_1\<close>, \<^verbatim>\<open>de_current_to_best_1\<close>
  (module \<^verbatim>\<open>de.mutation\<close>) and \<^verbatim>\<open>halving\<close> (module \<^verbatim>\<open>de.constraint\<close>) are not among
  the sources; the spec gives their expressions.  \<^verbatim>\<open>clip\<close> of \<^verbatim>\<open>utils.constraint\<close>
  is \<^emph>\<open>the saturation of x to [lo, hi]\<close>, the function \<^const>\<open>clip\<close> above.
\<close>

definition de_rand_1 :: "real \<Rightarrow> real \<Rightarrow> real \<Rightarrow> real \<Rightarrow> real" where
  "de_rand_1 Fv x_r0 x_r1 x_r2 = x_r0 + Fv * (x_r1 - x_r2)"

definition de_current_to_best_1 :: "real \<Rightarrow> real \<Rightarrow> real \<Rightarrow> real \<Rightarrow> real \<Rightarrow> real" where
  "de_current_to_best_1 Fv x_base x_best x_r1 x_r2 =
     x_base + Fv * (x_best - x_base) + Fv * (x_r1 - x_r2)"

definition halving :: "real \<Rightarrow> real \<Rightarrow> real \<Rightarrow> real \<Rightarrow> real" where
  "halving base mutant lower_bounds upper_bounds =
     (if mutant < lower_bounds then (base + lower_bounds) / 2
      else if upper_bounds < mutant then (base + upper_bounds) / 2
      else mutant)"

text \<open>
  Modelled from the spec: \<^verbatim>\<open>randn(\<mu>, \<sigma>)\<close> and \<^verbatim>\<open>randc(\<mu>, \<sigma>)\<close> (module
  \<^verbatim>\<open>utils.distribution\<close>) are a Gaussian sample and the Cauchy sample
  \<open>\<mu> + \<sigma> \<sqdot> tan(\<pi> \<sqdot> (U(0,1) - 0.5))\<close>.  The draw is the standard sample \<open>z\<close>, the
  tangent for \<^verbatim>\<open>randc\<close>.
\<close>

definition randn :: "real \<Rightarrow> real \<Rightarrow> real \<Rightarrow> real" where
  "randn mu sigma z = mu + sigma * z"

definition randc :: "real \<Rightarrow> real \<Rightarrow> real \<Rightarrow> real" where
  "randc mu sigma z = mu + sigma * z"

text \<open>
  Modelled from the spec: \<^verbatim>\<open>random_from_list(xs, k, exclude)\<close> (module
  \<^verbatim>\<open>utils.iterable\<close>) chooses \<open>k\<close> members of \<open>xs\<close>, \<^emph>\<open>uniformly at random, excluding
  the given members, all distinct\<close>.  Members are told apart by their ids.  The draws
  pick one candidate after the other from those that are left; with fewer than \<open>k\<close>
  candidates there is no such choice and the call raises.
\<close>

fun sample :: "nat \<Rightarrow> member list \<Rightarrow> (nat \<Rightarrow> nat) \<Rightarrow> error + member list" where
  "sample 0 cands rs = Inr []"
| "sample (Suc k) cands rs =
     (if cands = [] then Inl (ValueError ''Sample larger than population or is negative'')
      else bindE (sample k (delete_at (rs 0 mod length cands) cands) (\<lambda>n. rs (Suc n)))
             (\<lambda>ys. Inr (cands ! (rs 0 mod length cands) # ys)))"

definition random_from_list ::
  "member list \<Rightarrow> nat \<Rightarrow> member list \<Rightarrow> (nat \<Rightarrow> nat) \<Rightarrow> error + member list" where
  "random_from_list xs k exclude rs =
     sample k (filter (\<lambda>x. mid x \<notin> mid ` set exclude) xs) rs"

section \<open>Exploit and explore\<close>

text \<open>
  \<^verbatim>\<open>ExploitAndExplore.__explore(self, member)\<close>: coordinate by coordinate, a factor
  chosen from \<^verbatim>\<open>explore_factors\<close> and the product \<^verbatim>\<open>explorer[index] * perturb_factor\<close>
  of \<^verbatim>\<open>Hyperparameter.__mul__\<close>.  The draw of coordinate \<open>j\<close> is \<open>rs j\<close>.
\<close>

fun explore_loop :: "real list \<Rightarrow> (nat \<Rightarrow> nat) \<Rightarrow> nat list \<Rightarrow> member \<Rightarrow> error + member" where
  "explore_loop explore_factors rs [] explorer = Inr explorer"
| "explore_loop explore_factors rs (index # rest) explorer =
     bindE (choice explore_factors (rs index)) (\<lambda>perturb_factor.
     bindE (member_getitem explorer index) (\<lambda>u.
     bindE (member_setitem explorer index (Hyperparameter_mul u perturb_factor)) (\<lambda>explorer'.
     explore_loop explore_factors rs rest explorer')))"

definition explore :: "real list \<Rightarrow> (nat \<Rightarrow> nat) \<Rightarrow> member \<Rightarrow> error + member" where
  "explore explore_factors rs member =
     explore_loop explore_factors rs [0..<length (parameters member)] (copy member)"

text \<open>
  \<^verbatim>\<open>ExploitAndExplore.__exploit_and_explore(self, member, generation)\<close>; \<open>r\<close> is the
  draw that chooses the elitist.  \<^verbatim>\<open>member not in elitists\<close> is membership in the
  list.
\<close>

definition n_elitists :: "real \<Rightarrow> generation \<Rightarrow> int" where
  "n_elitists exploit_factor generation =
     max 1 (py_round (fmul (float_of_int (int (length generation))) exploit_factor))"

text \<open>The number of elitists as the specification writes it, in exact arithmetic.\<close>

definition n_elitists_spec :: "real \<Rightarrow> generation \<Rightarrow> int" where
  "n_elitists_spec exploit_factor generation =
     max 1 (py_round (real (length generation) * exploit_factor))"

definition elitists :: "real \<Rightarrow> generation \<Rightarrow> member list" where
  "elitists exploit_factor generation =
     take (nat (n_elitists exploit_factor generation)) (sorted_members_reverse generation)"

definition exploit_and_explore ::
  "real \<Rightarrow> real list \<Rightarrow> nat \<Rightarrow> (nat \<Rightarrow> nat) \<Rightarrow> member \<Rightarrow> generation \<Rightarrow> error + member" where
  "exploit_and_explore exploit_factor explore_factors r rs member generation =
     (if member \<notin> set (elitists exploit_factor generation)
      then bindE (choice (elitists exploit_factor generation) r) (\<lambda>elitist.
             explore explore_factors rs
               (copy_state (copy_parameters (copy member) elitist) elitist))
      else Inr (copy member))"

section \<open>Differential evolution\<close>

text \<open>The draws that one pass of the loop of \<^verbatim>\<open>DifferentialEvolution.mutate\<close> makes.\<close>

record de_draws =
  de_picks :: "nat \<Rightarrow> nat"
  de_j_raw :: nat
  de_uniform :: "nat \<Rightarrow> real"

text \<open>The inner loop \<^verbatim>\<open>for j in range(hp_dimension_size)\<close>.\<close>

fun DE_crossover ::
  "real \<Rightarrow> real \<Rightarrow> member \<Rightarrow> member \<Rightarrow> member \<Rightarrow> member \<Rightarrow> nat \<Rightarrow> (nat \<Rightarrow> real)
   \<Rightarrow> nat list \<Rightarrow> member \<Rightarrow> error + member" where
  "DE_crossover Fv Cr member x_r0 x_r1 x_r2 j_rand us [] trial = Inr trial"
| "DE_crossover Fv Cr member x_r0 x_r1 x_r2 j_rand us (j # js) trial =
     bindE (if us j \<le> Cr \<or> j = j_rand
            then bindE (member_getitem x_r0 j) (\<lambda>a.
                 bindE (member_getitem x_r1 j) (\<lambda>b.
                 bindE (member_getitem x_r2 j) (\<lambda>c.
                 member_setitem trial j (clip (de_rand_1 Fv a b c) 0 1))))
            else bindE (member_getitem member j) (\<lambda>v. member_setitem trial j v))
       (\<lambda>trial'. DE_crossover Fv Cr member x_r0 x_r1 x_r2 j_rand us js trial')"

text \<open>The body of the loop \<^verbatim>\<open>for member in generation\<close>, up to its \<^verbatim>\<open>yield\<close>.\<close>

definition DE_trial ::
  "real \<Rightarrow> real \<Rightarrow> generation \<Rightarrow> de_draws \<Rightarrow> member \<Rightarrow> error + member \<times> member" where
  "DE_trial Fv Cr generation d member =
     (let trial = copy member;
          hp_dimension_size = length (parameters member)
      in bindE (random_from_list generation 3 [member] (de_picks d)) (\<lambda>xs.
         case xs of
           [x_r0, x_r1, x_r2] \<Rightarrow>
             bindE (randrange (real hp_dimension_size) (de_j_raw d)) (\<lambda>j_rand.
             bindE (DE_crossover Fv Cr member x_r0 x_r1 x_r2 j_rand (de_uniform d)
                      [0..<hp_dimension_size] trial) (\<lambda>trial'.
             Inr (copy member, trial')))
         | _ \<Rightarrow> Inl (ValueError ''not enough values to unpack'')))"

text \<open>
  \<^verbatim>\<open>DifferentialEvolution.mutate(self, generation)\<close> is a generator: its result is the
  list of the pairs it yields and the exception, if any, that ends it.  Its body runs when
  the caller asks for the first pair.
\<close>

fun DE_mutate_loop ::
  "real \<Rightarrow> real \<Rightarrow> generation \<Rightarrow> (nat \<Rightarrow> de_draws) \<Rightarrow> nat \<Rightarrow> member list
   \<Rightarrow> (member \<times> member) list \<times> error option" where
  "DE_mutate_loop Fv Cr generation draws i [] = ([], None)"
| "DE_mutate_loop Fv Cr generation draws i (member # rest) =
     (case DE_trial Fv Cr generation (draws i) member of
        Inl e \<Rightarrow> ([], Some e)
      | Inr pair \<Rightarrow>
          (case DE_mutate_loop Fv Cr generation draws (Suc i) rest of
             (pairs, e) \<Rightarrow> (pair # pairs, e)))"

definition DE_mutate ::
  "real \<Rightarrow> real \<Rightarrow> generation \<Rightarrow> (nat \<Rightarrow> de_draws)
   \<Rightarrow> (member \<times> member) list \<times> error option" where
  "DE_mutate Fv Cr generation draws =
     (if length generation < 3
      then ([], Some (ValueError ''generation size must be at least 3 or higher.''))
      else DE_mutate_loop Fv Cr generation draws 0 generation)"

text \<open>\<^verbatim>\<open>DifferentialEvolution.select(parent, trial)\<close>.\<close>

definition DE_select :: "member \<Rightarrow> member \<Rightarrow> member" where
  "DE_select parent trial = (if member_le parent trial then trial else parent)"

section \<open>Historical memory (SHADE)\<close>

text \<open>
  \<^verbatim>\<open>mean_wl(S, weights)\<close>.  The inner function \<^verbatim>\<open>weight(weights, k)\<close> reads
  \<^verbatim>\<open>weights[k]\<close> and divides by \<^verbatim>\<open>sum(weights)\<close>; the two sums run over
  \<^verbatim>\<open>enumerate(S)\<close>.
\<close>

definition weight :: "real list \<Rightarrow> nat \<Rightarrow> error + real" where
  "weight ws i =
     (if length ws \<le> i then Inl IndexError
      else if sum_list ws = 0 then Inl ZeroDivisionError
      else Inr (ws ! i / sum_list ws))"

fun weighted_sum :: "(real \<Rightarrow> real) \<Rightarrow> real list \<Rightarrow> nat \<Rightarrow> real list \<Rightarrow> error + real" where
  "weighted_sum g ws i [] = Inr 0"
| "weighted_sum g ws i (s # S) =
     (case weight ws i of
        Inl e \<Rightarrow> Inl e
      | Inr w \<Rightarrow>
          (case weighted_sum g ws (Suc i) S of
             Inl e \<Rightarrow> Inl e
           | Inr r \<Rightarrow> Inr (w * g s + r)))"

definition mean_wl :: "real list \<Rightarrow> real list \<Rightarrow> error + real" where
  "mean_wl S ws =
     (case weighted_sum (\<lambda>s. s ^ 2) ws 0 S of
        Inl e \<Rightarrow> Inl e
      | Inr A \<Rightarrow>
          (case weighted_sum (\<lambda>s. s) ws 0 S of
             Inl e \<Rightarrow> Inl e
           | Inr B \<Rightarrow> if B = 0 then Inl ZeroDivisionError else Inr (A / B)))"

text \<open>
  The weighted Lehmer mean as the specification writes it, with weights \<open>w\<^sub>k\<close>:
  \<open>\<Sum> (w\<^sub>k / \<Sum>w) \<sqdot> s\<^sub>k\<^sup>2 / \<Sum> (w\<^sub>k / \<Sum>w) \<sqdot> s\<^sub>k\<close>.
\<close>

definition lehmer_denominator :: "real list \<Rightarrow> real list \<Rightarrow> real" where
  "lehmer_denominator S ws = (\<Sum>(w, s) \<leftarrow> zip ws S. w / sum_list ws * s)"

definition lehmer_mean :: "real list \<Rightarrow> real list \<Rightarrow> real" where
  "lehmer_mean S ws =
     (\<Sum>(w, s) \<leftarrow> zip ws S. w / sum_list ws * s ^ 2) / lehmer_denominator S ws"

record historical_memory =
  hm_size :: int
  m_cr :: "real option list"
  m_f :: "real list"
  s_cr :: "real list"
  s_f :: "real list"
  weights :: "real list"
  hm_k :: nat

text \<open>\<^verbatim>\<open>HistoricalMemory.__init__(self, size, default=0.5)\<close>.\<close>

definition HistoricalMemory_init :: "int \<Rightarrow> real \<Rightarrow> historical_memory" where
  "HistoricalMemory_init sz dflt =
     \<lparr>hm_size = sz, m_cr = replicate (nat sz) (Some dflt), m_f = replicate (nat sz) dflt,
      s_cr = [], s_f = [], weights = [], hm_k = 0\<rparr>"

text \<open>
  \<^verbatim>\<open>HistoricalMemory.record(self, cr_i, f_i, delta_score)\<close>; the score difference may
  be NaN, and \<^verbatim>\<open>1e-9\<close> replaces a difference that is zero or NaN.
\<close>

definition HistoricalMemory_record ::
  "historical_memory \<Rightarrow> real \<Rightarrow> real \<Rightarrow> pyfloat \<Rightarrow> error + historical_memory" where
  "HistoricalMemory_record hm cr_i f_i delta_score =
     (if \<not> (0 \<le> cr_i \<and> cr_i \<le> 1) then Inl (AssertionError ''cr_i is not valid.'')
      else if \<not> (0 \<le> f_i) then Inl (AssertionError ''f_i is not valid.'')
      else
        (let d = (case delta_score of NaN \<Rightarrow> 1 / 10 ^ 9
                  | Fl x \<Rightarrow> if x = 0 then 1 / 10 ^ 9 else x)
         in Inr (hm\<lparr>s_cr := s_cr hm @ [cr_i], s_f := s_f hm @ [f_i],
                     weights := weights hm @ [d]\<rparr>)))"

text \<open>\<^verbatim>\<open>HistoricalMemory.reset(self)\<close>.\<close>

definition HistoricalMemory_reset :: "historical_memory \<Rightarrow> historical_memory" where
  "HistoricalMemory_reset hm = hm\<lparr>s_cr := [], s_f := [], weights := []\<rparr>"

text \<open>\<^verbatim>\<open>max(xs)\<close> on a list that is not empty.\<close>

definition py_max :: "real list \<Rightarrow> real" where
  "py_max xs = fold max (tl xs) (hd xs)"

text \<open>
  \<^verbatim>\<open>HistoricalMemory.update(self)\<close>.  The reads and writes of \<^verbatim>\<open>m_cr[k]\<close> and
  \<^verbatim>\<open>m_f[k]\<close> raise \<^verbatim>\<open>IndexError\<close> out of range (the cursor is never negative).
  An exception ends the call; the state it leaves behind is not returned.
\<close>

definition HistoricalMemory_update :: "historical_memory \<Rightarrow> error + historical_memory" where
  "HistoricalMemory_update hm =
     (if s_cr hm = [] \<or> s_f hm = [] \<or> weights hm = [] then Inr hm
      else if length (m_cr hm) \<le> hm_k hm then Inl IndexError
      else
        (case (if m_cr hm ! hm_k hm = None \<or> py_max (s_cr hm) = 0 then Inr None
               else (case mean_wl (s_cr hm) (weights hm) of
                       Inl e \<Rightarrow> Inl e | Inr x \<Rightarrow> Inr (Some x))) of
           Inl e \<Rightarrow> Inl e
         | Inr new_cr \<Rightarrow>
             (case mean_wl (s_f hm) (weights hm) of
                Inl e \<Rightarrow> Inl e
              | Inr new_f \<Rightarrow>
                  if length (m_f hm) \<le> hm_k hm then Inl IndexError
                  else Inr (hm\<lparr>m_cr := (m_cr hm)[hm_k hm := new_cr],
                                m_f := (m_f hm)[hm_k hm := new_f],
                                hm_k := (if hm_size hm - 1 \<le> int (hm_k hm) then 0
                                         else hm_k hm + 1)\<rparr>))))"

section \<open>External archive\<close>

text \<open>
  \<^verbatim>\<open>class ExternalArchive(list)\<close>: the list itself and the attribute \<^verbatim>\<open>size\<close>.  The
  attribute is an \<^verbatim>\<open>int\<close> when SHADE builds the archive and the product of an
  \<^verbatim>\<open>int\<close> and \<^verbatim>\<open>r_arc\<close> after L-SHADE has resized it, so it is a number here.
\<close>

record external_archive =
  ea_items :: "member list"
  ea_size :: real

definition ExternalArchive_init :: "real \<Rightarrow> external_archive" where
  "ExternalArchive_init sz = \<lparr>ea_items = [], ea_size = sz\<rparr>"

text \<open>
  \<^verbatim>\<open>ExternalArchive.append(self, parent)\<close>; \<open>r\<close> is the draw of
  \<^verbatim>\<open>random.randrange(self.size)\<close>.
\<close>

definition ExternalArchive_append ::
  "external_archive \<Rightarrow> nat \<Rightarrow> member \<Rightarrow> error + external_archive" where
  "ExternalArchive_append a r parent =
     (if real (length (ea_items a)) = ea_size a
      then (case randrange (ea_size a) r of
              Inl e \<Rightarrow> Inl e
            | Inr random_index \<Rightarrow>
                Inr (a\<lparr>ea_items := delete_at random_index (ea_items a) @ [parent]\<rparr>))
      else Inr (a\<lparr>ea_items := ea_items a @ [parent]\<rparr>))"

section \<open>SHADE\<close>

record shade =
  F_MIN :: real
  F_MAX :: real
  N_INIT :: int
  r_arc :: real
  archive :: external_archive
  memory :: historical_memory
  p :: real
  CR :: "int \<rightharpoonup> real"
  F :: "int \<rightharpoonup> real"
  state_sharing :: bool
  F_averages :: "real list"
  CR_averages :: "real list"

text \<open>
  \<^verbatim>\<open>SHADE.__init__\<close>; the warning about a small \<^verbatim>\<open>p\<close> only prints.
\<close>

definition SHADE_init ::
  "int \<Rightarrow> real \<Rightarrow> real \<Rightarrow> int \<Rightarrow> real \<Rightarrow> real \<Rightarrow> bool \<Rightarrow> error + shade" where
  "SHADE_init n_init rarc pv memory_size f_min f_max sharing =
     (if n_init < 4 then Inl (ValueError ''population size must be at least 4 or higher.'')
      else if f_min < 0 then Inl (ValueError ''f_min cannot be negative.'')
      else if f_max \<le> 0 then Inl (ValueError ''f_max cannot be negative.'')
      else if f_max < f_min then Inl (ValueError ''f_max cannot be less than f_min.'')
      else Inr \<lparr>F_MIN = f_min, F_MAX = f_max, N_INIT = n_init, r_arc = rarc,
                 archive = ExternalArchive_init
                             (of_int (py_round (fmul (float_of_int n_init) rarc))),
                 memory = HistoricalMemory_init memory_size ((f_max - f_min) / 2),
                 p = pv, CR = Map.empty, F = Map.empty, state_sharing = sharing,
                 F_averages = [], CR_averages = []\<rparr>)"

text \<open>\<^verbatim>\<open>SHADE.on_generation_start\<close>.\<close>

definition SHADE_on_generation_start :: "'a shade_scheme \<Rightarrow> 'a shade_scheme" where
  "SHADE_on_generation_start s =
     s\<lparr>memory := HistoricalMemory_reset (memory s), CR := Map.empty, F := Map.empty\<rparr>"

text \<open>The draws that one call of \<^verbatim>\<open>SHADE.mutate\<close> makes.\<close>

record shade_draws =
  sd_r1 :: nat
  sd_normal :: real
  sd_cauchy :: "real list"
  sd_pick_r1 :: "nat \<Rightarrow> nat"
  sd_pick_r2 :: "nat \<Rightarrow> nat"
  sd_pbest :: nat
  sd_j_raw :: nat
  sd_uniform :: "nat \<Rightarrow> real"

text \<open>
  The loop \<^verbatim>\<open>while True\<close> of \<^verbatim>\<open>get_control_parameters\<close>, on the Cauchy draws it is
  given: a draw below \<^verbatim>\<open>F_MIN\<close> is rejected, one above \<^verbatim>\<open>F_MAX\<close> is replaced by
  \<^verbatim>\<open>F_MAX\<close>.
\<close>

fun generate_F :: "real \<Rightarrow> real \<Rightarrow> real \<Rightarrow> real list \<Rightarrow> error + real" where
  "generate_F MF_i f_min f_max [] = Inl NoReturn"
| "generate_F MF_i f_min f_max (z # zs) =
     (let F_i = randc MF_i (1/10) z
      in if F_i < f_min then generate_F MF_i f_min f_max zs
         else Inr (if f_max < F_i then f_max else F_i))"

text \<open>
  \<^verbatim>\<open>SHADE.get_control_parameters(self)\<close>.  The assertion
  \<^verbatim>\<open>not math.isnan(MCR_i)\<close> comes before the test \<^verbatim>\<open>MCR_i == None\<close>, and
  \<^verbatim>\<open>math.isnan(None)\<close> raises \<^verbatim>\<open>TypeError\<close>.
\<close>

definition get_control_parameters :: "'a shade_scheme \<Rightarrow> shade_draws \<Rightarrow> error + real \<times> real" where
  "get_control_parameters s d =
     bindE (randrange (of_int (hm_size (memory s))) (sd_r1 d)) (\<lambda>r1.
     bindE (py_getitem (m_f (memory s)) (int r1)) (\<lambda>MF_i.
     bindE (py_getitem (m_cr (memory s)) (int r1)) (\<lambda>MCR_i.
     case MCR_i of
       None \<Rightarrow> Inl TypeError
     | Some mcr \<Rightarrow>
         bindE (generate_F MF_i (F_MIN s) (F_MAX s) (sd_cauchy d)) (\<lambda>F_i.
         Inr (clip (randn mcr (1/10) (sd_normal d)) 0 1, F_i)))))"

text \<open>\<^verbatim>\<open>SHADE.pbest_member(self, generation)\<close>.\<close>

definition pbest_member :: "'a shade_scheme \<Rightarrow> generation \<Rightarrow> nat \<Rightarrow> error + member" where
  "pbest_member s generation r =
     choice (take (nat (max (py_round (fmul (float_of_int (int (length generation))) (p s))) 1))
               (sorted_members_reverse generation)) r"

text \<open>\<^verbatim>\<open>SHADE.__sample_r1_and_r2(self, member, generation)\<close>.\<close>

definition sample_r1_and_r2 ::
  "'a shade_scheme \<Rightarrow> member \<Rightarrow> generation \<Rightarrow> shade_draws \<Rightarrow> error + member \<times> member" where
  "sample_r1_and_r2 s member generation d =
     bindE (random_from_list generation 1 [member] (sd_pick_r1 d)) (\<lambda>xs.
     case xs of
       [x_r1] \<Rightarrow>
         bindE (random_from_list (ea_items (archive s) @ generation) 1 [member, x_r1]
                  (sd_pick_r2 d)) (\<lambda>ys.
         case ys of
           [x_r2] \<Rightarrow> Inr (x_r1, x_r2)
         | _ \<Rightarrow> Inl TypeError)
     | _ \<Rightarrow> Inl TypeError)"

text \<open>The loop \<^verbatim>\<open>for j in range(dimension_size)\<close> of \<^verbatim>\<open>SHADE.mutate\<close>.\<close>

fun SHADE_crossover ::
  "real \<Rightarrow> real \<Rightarrow> member \<Rightarrow> member \<Rightarrow> member \<Rightarrow> member \<Rightarrow> nat \<Rightarrow> (nat \<Rightarrow> real)
   \<Rightarrow> nat list \<Rightarrow> member \<Rightarrow> error + member" where
  "SHADE_crossover F_i CR_i member x_pbest x_r1 x_r2 j_rand us [] trial = Inr trial"
| "SHADE_crossover F_i CR_i member x_pbest x_r1 x_r2 j_rand us (j # js) trial =
     bindE (if us j \<le> CR_i \<or> j = j_rand
            then bindE (member_getitem member j) (\<lambda>x_base.
                 bindE (member_getitem x_pbest j) (\<lambda>x_best.
                 bindE (member_getitem x_r1 j) (\<lambda>a.
                 bindE (member_getitem x_r2 j) (\<lambda>b.
                 member_setitem trial j
                   (halving x_base (de_current_to_best_1 F_i x_base x_best a b) 0 1)))))
            else bindE (member_getitem member j) (\<lambda>v. member_setitem trial j v))
       (\<lambda>trial'. SHADE_crossover F_i CR_i member x_pbest x_r1 x_r2 j_rand us js trial')"

text \<open>
  \<^verbatim>\<open>SHADE.mutate(self, member, generation)\<close>: the trial, and the engine with the
  control parameters of the member recorded.
\<close>

definition SHADE_mutate ::
  "'a shade_scheme \<Rightarrow> shade_draws \<Rightarrow> member \<Rightarrow> generation \<Rightarrow> error + member \<times> 'a shade_scheme" where
  "SHADE_mutate s d member generation =
     (if length generation < 4
      then Inl (ValueError ''generation size must be at least 4 or higher.'')
      else
        bindE (get_control_parameters s d) (\<lambda>(CR_i, F_i).
        let s' = s\<lparr>CR := (CR s)(mid member \<mapsto> CR_i), F := (F s)(mid member \<mapsto> F_i)\<rparr> in
        bindE (sample_r1_and_r2 s' member generation d) (\<lambda>(x_r1, x_r2).
        bindE (pbest_member s' generation (sd_pbest d)) (\<lambda>x_pbest.
        bindE (randrange (real (length (parameters member))) (sd_j_raw d)) (\<lambda>j_rand.
        let trial = (if state_sharing s' then copy_state (copy member) x_pbest
                     else copy member) in
        bindE (SHADE_crossover F_i CR_i member x_pbest x_r1 x_r2 j_rand (sd_uniform d)
                 [0..<length (parameters member)] trial) (\<lambda>trial'.
        Inr (trial', s')))))))"

text \<open>
  \<^verbatim>\<open>SHADE.select(self, parent, trial)\<close>; \<open>r\<close> is the draw of the archive's eviction.
  \<^verbatim>\<open>self.CR[parent.id]\<close> and \<^verbatim>\<open>self.F[parent.id]\<close> raise \<^verbatim>\<open>KeyError\<close> on an id
  that \<^verbatim>\<open>mutate\<close> has not recorded.  An exception ends the call; the state it leaves
  behind is not returned.
\<close>

definition SHADE_select ::
  "'a shade_scheme \<Rightarrow> nat \<Rightarrow> member \<Rightarrow> member \<Rightarrow> error + member \<times> 'a shade_scheme" where
  "SHADE_select s r parent trial =
     (if member_le parent trial
      then (case ExternalArchive_append (archive s) r (copy parent) of
              Inl e \<Rightarrow> Inl e
            | Inr a \<Rightarrow>
                (let delta_score = py_abs (py_sub (score trial) (score parent))
                 in case CR s (mid parent) of
                      None \<Rightarrow> Inl KeyError
                    | Some cr_i \<Rightarrow>
                        (case F s (mid parent) of
                           None \<Rightarrow> Inl KeyError
                         | Some f_i \<Rightarrow>
                             (case HistoricalMemory_record (memory s) cr_i f_i delta_score of
                                Inl e \<Rightarrow> Inl e
                              | Inr m \<Rightarrow> Inr (trial, s\<lparr>archive := a, memory := m\<rparr>)))))
      else Inr (parent, s))"

section \<open>L-SHADE\<close>

record lshade = shade +
  N_MIN :: int
  MAX_NFE :: int
  nfe :: int

text \<open>
  \<^verbatim>\<open>LSHADE.__init__\<close>, and \<^verbatim>\<open>LSHADE.select\<close>, which counts the evaluation and then
  calls \<^verbatim>\<open>super().on_evaluate\<close>, a method that no class of the module defines: every
  call ends in \<^verbatim>\<open>AttributeError\<close> and leaves the engine with the counter incremented.
\<close>

definition LSHADE_init ::
  "int \<Rightarrow> int \<Rightarrow> real \<Rightarrow> real \<Rightarrow> int \<Rightarrow> real \<Rightarrow> real \<Rightarrow> bool \<Rightarrow> error + lshade" where
  "LSHADE_init n_init max_nfe rarc pv memory_size f_min f_max sharing =
     (case SHADE_init n_init rarc pv memory_size f_min f_max sharing of
        Inl e \<Rightarrow> Inl e
      | Inr s \<Rightarrow> Inr (shade.extend s (lshade.fields 4 max_nfe 0)))"

definition LSHADE_select :: "lshade \<Rightarrow> member \<times> member \<Rightarrow> error \<times> lshade" where
  "LSHADE_select s candidates = (AttributeError ''on_evaluate'', s\<lparr>nfe := nfe s + 1\<rparr>)"

text \<open>
  The new population size that \<^verbatim>\<open>LSHADE.adjust_generation_size\<close> computes first; the
  division is Python's true division and raises on \<^verbatim>\<open>MAX_NFE = 0\<close>.
\<close>

definition new_size :: "lshade \<Rightarrow> int" where
  "new_size s =
     py_round (fadd (fmul (int_truediv (N_MIN s - N_INIT s) (MAX_NFE s)) (float_of_int (nfe s)))
                    (float_of_int (N_INIT s)))"

text \<open>
  The size as the specification writes it: the value of the same expression in exact
  arithmetic, and its rounding.
\<close>

definition new_size_exact :: "lshade \<Rightarrow> real" where
  "new_size_exact s =
     of_int (N_MIN s - N_INIT s) / of_int (MAX_NFE s) * of_int (nfe s) + of_int (N_INIT s)"

definition new_size_spec :: "lshade \<Rightarrow> int" where
  "new_size_spec s = py_round (new_size_exact s)"

text \<open>
  The members the loop of \<^verbatim>\<open>adjust_generation_size\<close> removes:
  \<^verbatim>\<open>sorted(generation)[:size_delta]\<close>, a slice with a positive bound.
\<close>

definition worst_members :: "lshade \<Rightarrow> generation \<Rightarrow> member list" where
  "worst_members s generation =
     take (nat (int (length generation) - new_size s)) (sorted_members generation)"

text \<open>
  \<^verbatim>\<open>LSHADE.adjust_generation_size(self, generation)\<close>; the generation is mutated in
  place, so it is returned with the state.
\<close>

definition adjust_generation_size ::
  "lshade \<Rightarrow> generation \<Rightarrow> error + lshade \<times> generation" where
  "adjust_generation_size s generation =
     (if MAX_NFE s = 0 then Inl ZeroDivisionError
      else if int (length generation) \<le> new_size s then Inr (s, generation)
      else
        (let s' = s\<lparr>archive := (archive s)
                   \<lparr>ea_size := fmul (float_of_int (new_size s)) (r_arc s)\<rparr>\<rparr>
         in Inr (s', fold Generation_remove (worst_members s generation) generation)))"

section \<open>The errors of the size checks\<close>

text \<open>
  An exception is raised for another reason when it is neither of the two errors that the
  size checks of \<^verbatim>\<open>DifferentialEvolution.mutate\<close> and \<^verbatim>\<open>SHADE.mutate\<close> raise, and a
  result has no size error when it is a value or an exception raised for another reason.
\<close>

definition other_reason :: "error \<Rightarrow> bool" where
  "other_reason e =
     (e \<noteq> ValueError ''generation size must be at least 3 or higher.''
      \<and> e \<noteq> ValueError ''generation size must be at least 4 or higher.'')"

definition no_size_error :: "error + 'a \<Rightarrow> bool" where
  "no_size_error res = (case res of Inl e \<Rightarrow> other_reason e | Inr _ \<Rightarrow> True)"

section \<open>Example data\<close>

text \<open>
  The sequence of draws that are all the same; a member with one coordinate, a maximised
  score and the given id; the SHADE and L-SHADE engines the examples run on.
\<close>

definition all_draws :: "'a \<Rightarrow> nat \<Rightarrow> 'a" where
  "all_draws x n = x"

definition member_of :: "int \<Rightarrow> real \<Rightarrow> member" where
  "member_of i x = \<lparr>mid = i, parameters = [1/2], opaque_state = 0, score = Fl x, minimize = False\<rparr>"

definition shade_of :: "real \<Rightarrow> shade" where
  "shade_of rarc =
     \<lparr>F_MIN = 0, F_MAX = 1, N_INIT = 20, r_arc = rarc,
      archive = ExternalArchive_init (of_int (py_round (20 * rarc))),
      memory = HistoricalMemory_init 5 (1/2),
      p = 1/10, CR = [1 \<mapsto> 1/2], F = [1 \<mapsto> 1/2], state_sharing = False,
      F_averages = [], CR_averages = []\<rparr>"

definition lshade_of :: "real \<Rightarrow> int \<Rightarrow> lshade" where
  "lshade_of rarc n = shade.extend (shade_of rarc) (lshade.fields 4 1000 n)"

definition lshade_with :: "int \<Rightarrow> int \<Rightarrow> int \<Rightarrow> lshade" where
  "lshade_with n_init max_nfe n = (lshade_of 2 n)\<lparr>N_INIT := n_init, MAX_NFE := max_nfe\<rparr>"


definition generation_of :: "nat \<Rightarrow> generation" where
  "generation_of n = map (\<lambda>i. member_of (int i) (real i / 100)) [0..<n]"

text \<open>
  Five members with the scores \<open>0.125, 0.25, 0.375, 0.5, 0.625\<close>, maximised; the member
  with score \<open>0.5\<close> has the coordinate \<open>0.875\<close>.  All numbers are binary64 numbers.
\<close>

definition member_with :: "int \<Rightarrow> real \<Rightarrow> real \<Rightarrow> member" where
  "member_with i u x =
     \<lparr>mid = i, parameters = [u], opaque_state = nat i, score = Fl x, minimize = False\<rparr>"

definition five_members :: generation where
  "five_members =
     [member_with 1 (1/8) (1/8), member_with 2 (1/4) (1/4), member_with 3 (3/8) (3/8),
      member_with 4 (7/8) (1/2), member_with 5 (1/2) (5/8)]"

text \<open>
  Four members with one coordinate \<open>0.5\<close> each, and draws that pick the first candidate,
  the first coordinate and the centre of each distribution.
\<close>

definition four_members :: generation where
  "four_members = [member_of 0 0, member_of 1 (1/10), member_of 2 (1/5), member_of 3 (3/10)]"

definition de_draws_0 :: de_draws where
  "de_draws_0 = \<lparr>de_picks = (\<lambda>n. 0), de_j_raw = 0, de_uniform = (\<lambda>j. 0)\<rparr>"

definition shade_draws_0 :: shade_draws where
  "shade_draws_0 =
     \<lparr>sd_r1 = 0, sd_normal = 0, sd_cauchy = [0], sd_pick_r1 = (\<lambda>n. 0), sd_pick_r2 = (\<lambda>n. 0),
      sd_pbest = 0, sd_j_raw = 0, sd_uniform = (\<lambda>j. 0)\<rparr>"

section \<open>Rounding to binary64\<close>

text \<open>
  Python's \<^verbatim>\<open>round\<close> is monotone and odd; \<open>fl64\<close> is evaluated in the binade of
  its argument, keeps the sign, is monotone, and is the identity on the numbers
  \<open>m \<sqdot> 2\<^sup>k\<close> with \<open>|m| < 2\<^sup>5\<^sup>3\<close>, so on its own results.
\<close>

lemma py_round_of_int: "py_round (of_int n) = n"
  by (simp add: py_round_def)

lemma py_round_floor: "\<lfloor>x\<rfloor> \<le> py_round x" "py_round x \<le> \<lfloor>x\<rfloor> + 1"
  by (simp_all add: py_round_def Let_def)

lemma py_round_mono:
  assumes "x \<le> y"
  shows "py_round x \<le> py_round y"
proof (cases "\<lfloor>x\<rfloor> = \<lfloor>y\<rfloor>")
  case True
  with assms show ?thesis by (auto simp: py_round_def Let_def)
next
  case False
  moreover have "\<lfloor>x\<rfloor> \<le> \<lfloor>y\<rfloor>" using assms by (rule floor_mono)
  ultimately have "\<lfloor>x\<rfloor> + 1 \<le> \<lfloor>y\<rfloor>" by simp
  then show ?thesis using py_round_floor(2) [of x] py_round_floor(1) [of y] by linarith
qed

lemma py_round_uminus: "py_round (- x) = - py_round x"
proof (cases "x = of_int \<lfloor>x\<rfloor>")
  case True
  then obtain n where "x = of_int n" ..
  then show ?thesis by (simp add: py_round_of_int flip: of_int_minus)
next
  case False
  then have "\<lfloor>- x\<rfloor> = - \<lfloor>x\<rfloor> - 1" by (simp add: floor_minus ceiling_altdef)
  then show ?thesis by (auto simp: py_round_def Let_def)
qed

lemma py_round_half: "\<bar>of_int (py_round x) - x\<bar> \<le> 1/2"
  unfolding py_round_def Let_def by (auto; linarith)

lemma powr2_powi: "(2::real) powr real_of_int k = 2 powi k"
  by (simp add: powr_real_of_int')

lemma binade:
  assumes "x \<noteq> 0"
  shows "2 powi \<lfloor>log 2 \<bar>x\<bar>\<rfloor> \<le> \<bar>x\<bar>" and "\<bar>x\<bar> < 2 powi (\<lfloor>log 2 \<bar>x\<bar>\<rfloor> + 1)"
proof -
  have pos: "0 < \<bar>x\<bar>" using assms by simp
  have "(\<lfloor>log 2 \<bar>x\<bar>\<rfloor> = \<lfloor>log 2 \<bar>x\<bar>\<rfloor>)
      = (2 powi \<lfloor>log 2 \<bar>x\<bar>\<rfloor> \<le> \<bar>x\<bar> \<and> \<bar>x\<bar> < 2 powi (\<lfloor>log 2 \<bar>x\<bar>\<rfloor> + 1))"
    using floor_log_eq_powr_iff [OF pos, of 2 "\<lfloor>log 2 \<bar>x\<bar>\<rfloor>"] unfolding powr2_powi by simp
  then show "2 powi \<lfloor>log 2 \<bar>x\<bar>\<rfloor> \<le> \<bar>x\<bar>" and "\<bar>x\<bar> < 2 powi (\<lfloor>log 2 \<bar>x\<bar>\<rfloor> + 1)"
    by blast+
qed

lemma binade_unique:
  assumes "2 powi e \<le> \<bar>x\<bar>" and "\<bar>x\<bar> < 2 powi (e + 1)"
  shows "\<lfloor>log 2 \<bar>x\<bar>\<rfloor> = e"
proof -
  have "0 < (2::real) powi e" by simp
  with assms(1) have pos: "0 < \<bar>x\<bar>" by linarith
  have "(\<lfloor>log 2 \<bar>x\<bar>\<rfloor> = e) = (2 powi e \<le> \<bar>x\<bar> \<and> \<bar>x\<bar> < 2 powi (e + 1))"
    using floor_log_eq_powr_iff [OF pos, of 2 e] unfolding powr2_powi by simp
  with assms show ?thesis by blast
qed

lemma fl64_eval:
  assumes "2 powi e \<le> \<bar>x\<bar>" and "\<bar>x\<bar> < 2 powi (e + 1)"
  shows "fl64 x = of_int (py_round (x / 2 powi (e - 52))) * 2 powi (e - 52)"
proof -
  have "0 < (2::real) powi e" by simp
  with assms(1) have "0 < \<bar>x\<bar>" by linarith
  then have "x \<noteq> 0" by simp
  then show ?thesis by (simp add: fl64_def Let_def binade_unique [OF assms])
qed

lemma fl64_0: "fl64 0 = 0"
  by (simp add: fl64_def)


lemma powi2_less_D: "(2::real) powi a < 2 powi b \<Longrightarrow> a < b"
proof (rule ccontr)
  assume lt: "(2::real) powi a < 2 powi b" and "\<not> a < b"
  then have "b \<le> a" by simp
  then have "(2::real) powi b \<le> 2 powi a" by (rule power_int_increasing) simp
  with lt show False by simp
qed

lemma ulp_binade:
  "(2::real) powi e = 4503599627370496 * 2 powi (e - 52)"
  "(2::real) powi (e + 1) = 9007199254740992 * 2 powi (e - 52)"
  by (simp_all add: power_int_diff power_int_add)

lemma fl64_uminus: "fl64 (- x) = - fl64 x"
  by (simp add: fl64_def Let_def py_round_uminus)

lemma fl64_binade:
  assumes "2 powi e \<le> x" and "x < 2 powi (e + 1)"
  shows "2 powi e \<le> fl64 x" and "fl64 x \<le> 2 powi (e + 1)"
proof -
  let ?s = "(2::real) powi (e - 52)"
  have s: "0 < ?s" by simp
  have "0 < (2::real) powi e" by simp
  with assms(1) have x: "0 < x" by linarith
  then have ax: "\<bar>x\<bar> = x" by simp
  have fl: "fl64 x = of_int (py_round (x / ?s)) * ?s"
    using assms by (intro fl64_eval) (simp_all add: ax)
  have "4503599627370496 * ?s \<le> x" using assms(1) by (simp only: ulp_binade [of e])
  then have "real_of_int 4503599627370496 \<le> x / ?s" using s by (simp add: pos_le_divide_eq)
  then have "py_round (real_of_int 4503599627370496) \<le> py_round (x / ?s)"
    by (rule py_round_mono)
  then have lo: "4503599627370496 \<le> py_round (x / ?s)" by (simp only: py_round_of_int)
  have "x \<le> 9007199254740992 * ?s" using assms(2) by (simp only: ulp_binade [of e])
  then have "x / ?s \<le> real_of_int 9007199254740992" using s by (simp add: pos_divide_le_eq)
  then have "py_round (x / ?s) \<le> py_round (real_of_int 9007199254740992)"
    by (rule py_round_mono)
  then have hi: "py_round (x / ?s) \<le> 9007199254740992" by (simp only: py_round_of_int)
  have "4503599627370496 * ?s \<le> of_int (py_round (x / ?s)) * ?s"
    using lo s by (intro mult_right_mono) simp_all
  then show "2 powi e \<le> fl64 x" by (simp only: fl ulp_binade [of e])
  have "of_int (py_round (x / ?s)) * ?s \<le> 9007199254740992 * ?s"
    using hi s by (intro mult_right_mono) simp_all
  then show "fl64 x \<le> 2 powi (e + 1)" by (simp only: fl ulp_binade [of e])
qed

lemma fl64_pos: "0 < x \<Longrightarrow> 0 < fl64 x"
proof -
  assume x: "0 < x"
  then have "2 powi \<lfloor>log 2 \<bar>x\<bar>\<rfloor> \<le> x" and "x < 2 powi (\<lfloor>log 2 \<bar>x\<bar>\<rfloor> + 1)"
    using binade [of x] by simp_all
  then have "2 powi \<lfloor>log 2 \<bar>x\<bar>\<rfloor> \<le> fl64 x" by (rule fl64_binade)
  moreover have "0 < (2::real) powi \<lfloor>log 2 \<bar>x\<bar>\<rfloor>" by simp
  ultimately show ?thesis by linarith
qed

lemma fl64_nonneg: "0 \<le> x \<Longrightarrow> 0 \<le> fl64 x"
  using fl64_pos [of x] by (cases "x = 0") (simp_all add: fl64_0)

lemma fl64_nonpos: "x \<le> 0 \<Longrightarrow> fl64 x \<le> 0"
  using fl64_nonneg [of "- x"] by (simp add: fl64_uminus)

lemma fl64_neg: "x < 0 \<Longrightarrow> fl64 x < 0"
  using fl64_pos [of "- x"] by (simp add: fl64_uminus)

lemma fl64_eq_0_iff: "fl64 x = 0 \<longleftrightarrow> x = 0"
proof
  assume z: "fl64 x = 0"
  show "x = 0"
  proof (rule ccontr)
    assume "x \<noteq> 0"
    then consider "0 < x" | "x < 0" by linarith
    then show False
    proof cases
      case 1 then have "0 < fl64 x" by (rule fl64_pos) with z show False by simp
    next
      case 2 then have "fl64 x < 0" by (rule fl64_neg) with z show False by simp
    qed
  qed
next
  assume "x = 0" then show "fl64 x = 0" by (simp add: fl64_0)
qed

lemma fl64_mono_pos:
  assumes "0 < x" and "x \<le> y"
  shows "fl64 x \<le> fl64 y"
proof -
  let ?ex = "\<lfloor>log 2 \<bar>x\<bar>\<rfloor>" and ?ey = "\<lfloor>log 2 \<bar>y\<bar>\<rfloor>"
  have y: "0 < y" using assms by simp
  have bx: "2 powi ?ex \<le> x" "x < 2 powi (?ex + 1)" using binade [of x] assms(1) by simp_all
  have by': "2 powi ?ey \<le> y" "y < 2 powi (?ey + 1)" using binade [of y] y by simp_all
  have "log 2 x \<le> log 2 y" using assms by simp
  then have "?ex \<le> ?ey" using assms(1) y by (simp add: floor_mono)
  then consider "?ex = ?ey" | "?ex + 1 \<le> ?ey" by linarith
  then show ?thesis
  proof cases
    case 1
    let ?s = "(2::real) powi (?ex - 52)"
    have s: "0 < ?s" by simp
    have "x / ?s \<le> y / ?s" using assms(2) s by (simp add: divide_right_mono)
    then have "py_round (x / ?s) \<le> py_round (y / ?s)" by (rule py_round_mono)
    then have "of_int (py_round (x / ?s)) * ?s \<le> of_int (py_round (y / ?s)) * ?s"
      using s by (intro mult_right_mono) simp_all
    then show ?thesis using assms(1) y 1 by (simp add: fl64_def Let_def)
  next
    case 2
    have "fl64 x \<le> 2 powi (?ex + 1)" using bx by (rule fl64_binade)
    also have "\<dots> \<le> 2 powi ?ey" using 2 by (intro power_int_increasing) simp_all
    also have "\<dots> \<le> fl64 y" using by' by (rule fl64_binade)
    finally show ?thesis .
  qed
qed

lemma fl64_mono:
  assumes "x \<le> y"
  shows "fl64 x \<le> fl64 y"
proof -
  consider "0 < x" | "x \<le> 0" "0 \<le> y" | "y < 0" by linarith
  then show ?thesis
  proof cases
    case 1
    then show ?thesis using assms by (rule fl64_mono_pos)
  next
    case 2
    then show ?thesis using fl64_nonpos [of x] fl64_nonneg [of y] by linarith
  next
    case 3
    then have "fl64 (- y) \<le> fl64 (- x)" using assms by (intro fl64_mono_pos) simp_all
    then show ?thesis by (simp add: fl64_uminus)
  qed
qed

lemma fl64_representable:
  assumes "\<bar>m\<bar> < 9007199254740992"
  shows "fl64 (of_int m * 2 powi k) = of_int m * 2 powi k"
proof (cases "m = 0")
  case True
  then show ?thesis by (simp add: fl64_0)
next
  case False
  let ?x = "real_of_int m * 2 powi k"
  let ?e = "\<lfloor>log 2 \<bar>?x\<bar>\<rfloor>"
  have x0: "?x \<noteq> 0" using False by simp
  have "2 powi ?e \<le> \<bar>?x\<bar>" using x0 by (rule binade)
  also have "\<bar>?x\<bar> = \<bar>real_of_int m\<bar> * 2 powi k" by (simp add: abs_mult)
  also have "\<dots> < 9007199254740992 * 2 powi k"
    using assms by (intro mult_strict_right_mono) simp_all
  also have "\<dots> = 2 powi (53 + k)" by (simp add: power_int_add)
  finally have "?e < 53 + k" by (rule powi2_less_D)
  then have d: "0 \<le> k - (?e - 52)" by simp
  have "?x / 2 powi (?e - 52) = of_int m * 2 powi (k - (?e - 52))"
    by (simp add: power_int_diff)
  also have "\<dots> = of_int (m * 2 ^ nat (k - (?e - 52)))"
    using d by (simp add: power_int_nonneg_exp)
  finally have q: "?x / 2 powi (?e - 52) = of_int (m * 2 ^ nat (k - (?e - 52)))" .
  have "fl64 ?x = of_int (py_round (?x / 2 powi (?e - 52))) * 2 powi (?e - 52)"
    using x0 by (simp add: fl64_def Let_def)
  also have "\<dots> = ?x / 2 powi (?e - 52) * 2 powi (?e - 52)"
    by (simp only: q py_round_of_int)
  also have "\<dots> = ?x" by simp
  finally show ?thesis .
qed

lemma fl64_of_int:
  assumes "\<bar>m\<bar> < 9007199254740992"
  shows "fl64 (of_int m) = of_int m"
proof -
  have "fl64 (of_int m * 2 powi 0) = of_int m * 2 powi 0"
    using assms by (rule fl64_representable)
  then show ?thesis by simp
qed

lemma fl64_1: "fl64 1 = 1"
  using fl64_of_int [of 1] by simp

lemma fl64_idem: "fl64 (fl64 x) = fl64 x"
proof -
  have pos: "fl64 (fl64 x) = fl64 x" if x: "0 < x" for x
  proof -
    let ?e = "\<lfloor>log 2 \<bar>x\<bar>\<rfloor>"
    let ?s = "(2::real) powi (?e - 52)"
    let ?M = "py_round (x / ?s)"
    have s: "0 < ?s" by simp
    have bx: "2 powi ?e \<le> x" "x < 2 powi (?e + 1)" using binade [of x] x by simp_all
    have fl: "fl64 x = of_int ?M * ?s" using x by (simp add: fl64_def Let_def)
    have "fl64 x \<le> 2 powi (?e + 1)" using bx by (rule fl64_binade)
    then have "of_int ?M * ?s \<le> 9007199254740992 * ?s" by (simp only: fl ulp_binade [of ?e])
    then have "real_of_int ?M \<le> 9007199254740992" using s by simp
    then have hi: "?M \<le> 9007199254740992" by linarith
    have "0 < fl64 x" using x by (rule fl64_pos)
    then have "0 < real_of_int ?M" using s by (simp add: fl zero_less_mult_iff)
    then have lo: "0 < ?M" by simp
    show ?thesis
    proof (cases "?M = 9007199254740992")
      case True
      have "(2::real) powi (?e - 51) = 2 * ?s"
        using power_int_add_1' [of "2::real" "?e - 52"] by simp
      with True have "fl64 x = of_int 4503599627370496 * 2 powi (?e - 51)"
        by (simp add: fl)
      moreover have "fl64 (of_int 4503599627370496 * 2 powi (?e - 51))
          = of_int 4503599627370496 * 2 powi (?e - 51)"
        by (rule fl64_representable) simp
      ultimately show ?thesis by simp
    next
      case False
      with hi lo have "\<bar>?M\<bar> < 9007199254740992" by simp
      then have "fl64 (of_int ?M * ?s) = of_int ?M * ?s" by (rule fl64_representable)
      then show ?thesis by (simp only: fl)
    qed
  qed
  consider "0 < x" | "x = 0" | "x < 0" by linarith
  then show ?thesis
  proof cases
    case 1 then show ?thesis by (rule pos)
  next
    case 2 then show ?thesis by (simp add: fl64_0)
  next
    case 3
    then have "fl64 (fl64 (- x)) = fl64 (- x)" by (intro pos) simp
    then show ?thesis by (simp add: fl64_uminus)
  qed
qed


lemma fl64_numeral: "(numeral w :: int) < 9007199254740992 \<Longrightarrow> fl64 (numeral w) = numeral w"
  using fl64_of_int [of "numeral w"] by simp

lemma fl64_rel_error: "\<bar>fl64 x - x\<bar> \<le> \<bar>x\<bar> / 9007199254740992"
proof (cases "x = 0")
  case True
  then show ?thesis by (simp add: fl64_0)
next
  case False
  let ?e = "\<lfloor>log 2 \<bar>x\<bar>\<rfloor>"
  let ?s = "(2::real) powi (?e - 52)"
  let ?M = "real_of_int (py_round (x / ?s))"
  have s: "0 < ?s" by simp
  have fl: "fl64 x = ?M * ?s" using False by (simp add: fl64_def Let_def)
  have "fl64 x - x = (?M - x / ?s) * ?s" using s by (simp add: fl left_diff_distrib)
  then have "\<bar>fl64 x - x\<bar> = \<bar>?M - x / ?s\<bar> * ?s" using s by (simp only: abs_mult) simp
  also have "\<dots> \<le> 1/2 * ?s"
    using s py_round_half [of "x / ?s"] by (intro mult_right_mono) simp_all
  also have "\<dots> = 2 powi ?e / 9007199254740992" by (simp add: ulp_binade(1) [of ?e])
  also have "\<dots> \<le> \<bar>x\<bar> / 9007199254740992"
    using binade(1) [OF False] by (simp add: divide_right_mono)
  finally show ?thesis .
qed

lemma py_round_near:
  assumes "\<bar>x - of_int k\<bar> < 1/2"
  shows "py_round x = k"
proof -
  have lo: "real_of_int k - 1/2 < x" and hi: "x < real_of_int k + 1/2"
    using assms by linarith+
  have "of_int (k - 1) \<le> x" and "x < of_int (k + 1)" using lo hi by simp_all
  then have "k - 1 \<le> \<lfloor>x\<rfloor>" and "\<lfloor>x\<rfloor> < k + 1"
    by (simp_all only: le_floor_iff floor_less_iff)
  then consider "\<lfloor>x\<rfloor> = k" | "\<lfloor>x\<rfloor> = k - 1" by linarith
  then show ?thesis
  proof cases
    case 1
    then show ?thesis using lo hi by (simp add: py_round_def Let_def)
  next
    case 2
    then show ?thesis using lo hi by (simp add: py_round_def Let_def)
  qed
qed

section \<open>Construction of hyper-parameters\<close>

text \<open>
  C4. Constructing a categorical hyper-parameter: the second assertion of the constructor
  is the conjunction \<^verbatim>\<open>not is_categorical and isinstance(args[0], (float, int))\<close>, so
  with \<^verbatim>\<open>is_categorical=True\<close> the construction ends in an \<^verbatim>\<open>AssertionError\<close>, here
  for the two categories \<^verbatim>\<open>'adam'\<close> and \<^verbatim>\<open>'sgd'\<close>.
\<close>

theorem C4_categorical_construction_fails:
  "Hyperparameter_init [PStr ''adam'', PStr ''sgd''] True
     = Inl (AssertionError ''Non-categorical hyperparameters must be of type float or int.'')"
  by (simp add: Hyperparameter_init_def)

text \<open>
  The same holds for every argument list: with \<^verbatim>\<open>is_categorical=True\<close> one of the two
  assertions fails.  Fewer than two arguments fail the first assertion, whatever the flag.
\<close>

lemma Hyperparameter_init_categorical:
  "Hyperparameter_init args True =
     Inl (AssertionError
       (if length args < 2
        then ''Hyperparameter initialization needs at least two arguments.''
        else ''Non-categorical hyperparameters must be of type float or int.''))"
  by (cases args) (auto simp: Hyperparameter_init_def)

lemma Hyperparameter_init_few_arguments:
  "length args < 2 \<Longrightarrow>
   Hyperparameter_init args is_cat =
     Inl (AssertionError ''Hyperparameter initialization needs at least two arguments.'')"
  by (cases args) (auto simp: Hyperparameter_init_def)

section \<open>Setting and reading a continuous hyper-parameter\<close>

lemma Hyperparameter_init_float:
  "a < b \<Longrightarrow> Hyperparameter_init [PFloat a, PFloat b] False
     = Inr \<lparr>search_space = [PFloat a, PFloat b], is_categorical = False, hp_value = None\<rparr>"
  by (simp add: Hyperparameter_init_def py_sorted_def)

lemma bounds_float:
  "bounds \<lparr>search_space = [PFloat a, PFloat b], is_categorical = c, hp_value = x\<rparr> = Inr (a, b)"
  by (simp add: bounds_def get_lower_bound_def get_upper_bound_def py_getitem_def)

lemma fsub_pos: "a < b \<Longrightarrow> 0 < fsub b a"
  by (simp add: fsub_def fl64_pos)

text \<open>
  On the hyper-parameter built from the bounds \<open>a < b\<close>, \<^verbatim>\<open>set_value(v)\<close> stores the
  rounded quotient of the rounded differences, clipped to \<open>[0, 1]\<close>, and
  \<^verbatim>\<open>get_value()\<close> returns the lower bound plus the stored number times the rounded
  width, each operation rounded.
\<close>

lemma set_value_float:
  assumes "a < b"
  shows "set_value \<lparr>search_space = [PFloat a, PFloat b], is_categorical = False, hp_value = x\<rparr>
           (PFloat v)
         = Inr \<lparr>search_space = [PFloat a, PFloat b], is_categorical = False,
                hp_value = Some (clip (fdiv (fsub v a) (fsub b a)) 0 1)\<rparr>"
proof -
  have "fsub b a \<noteq> 0" using fsub_pos [OF assms] by simp
  moreover have "fadd 0 (fmul (fdiv (fsub v a) (fsub b a)) (fsub 1 0))
      = fdiv (fsub v a) (fsub b a)"
    by (simp add: fadd_def fmul_def fsub_def fdiv_def fl64_1 fl64_idem)
  ultimately show ?thesis
    by (simp add: set_value_def get_normalized_value_def bounds_float translate_def Let_def)
qed

lemma get_value_float:
  assumes "fl64 u = u"
  shows "get_value \<lparr>search_space = [PFloat a, PFloat b], is_categorical = False,
                    hp_value = Some u\<rparr>
         = Inr (PFloat (fadd a (fmul u (fsub b a))))"
proof -
  have "fsub 1 0 = 1" by (simp add: fsub_def fl64_1)
  moreover have "fdiv (fsub u 0) 1 = u" by (simp add: fdiv_def fsub_def assms)
  ultimately show ?thesis
    by (simp add: get_value_def get_lower_bound_def py_getitem_def bounds_float translate_def
        Let_def)
qed

lemma clip_fl64: "fl64 x = x \<Longrightarrow> fl64 (clip x 0 1) = clip x 0 1"
  by (simp add: clip_def fl64_0 fl64_1)

lemma set_then_get_float:
  assumes "a < b"
  shows "set_then_get \<lparr>search_space = [PFloat a, PFloat b], is_categorical = False,
                       hp_value = x\<rparr> (PFloat v)
         = Inr (PFloat (fadd a (fmul (clip (fdiv (fsub v a) (fsub b a)) 0 1) (fsub b a))))"
proof -
  have "fl64 (fdiv (fsub v a) (fsub b a)) = fdiv (fsub v a) (fsub b a)"
    by (simp add: fdiv_def fl64_idem)
  then have "fl64 (clip (fdiv (fsub v a) (fsub b a)) 0 1) = clip (fdiv (fsub v a) (fsub b a)) 0 1"
    by (rule clip_fl64)
  then show ?thesis
    by (simp add: set_then_get_def set_value_float [OF assms] bindE_def get_value_float)
qed

text \<open>The stored number is \<open>0\<close> for a value at or below the lower bound and \<open>1\<close> for a
  value at or above the upper bound.\<close>

lemma normalized_below:
  assumes "a < b" and "v \<le> a"
  shows "clip (fdiv (fsub v a) (fsub b a)) 0 1 = 0"
proof -
  have "fsub v a \<le> 0" using assms(2) by (simp add: fsub_def fl64_nonpos)
  then have "fsub v a / fsub b a \<le> 0"
    using fsub_pos [OF assms(1)] by (simp add: divide_le_0_iff)
  then have "fdiv (fsub v a) (fsub b a) \<le> 0" unfolding fdiv_def by (rule fl64_nonpos)
  then show ?thesis by (auto simp: clip_def)
qed

lemma normalized_above:
  assumes "a < b" and "b \<le> v"
  shows "clip (fdiv (fsub v a) (fsub b a)) 0 1 = 1"
proof -
  have "fsub b a \<le> fsub v a" using assms(2) by (simp add: fsub_def fl64_mono)
  then have "1 \<le> fsub v a / fsub b a"
    using fsub_pos [OF assms(1)] by (simp add: pos_le_divide_eq)
  then have "fl64 1 \<le> fdiv (fsub v a) (fsub b a)" unfolding fdiv_def by (rule fl64_mono)
  then have "1 \<le> fdiv (fsub v a) (fsub b a)" by (simp add: fl64_1)
  then show ?thesis by (auto simp: clip_def)
qed

text \<open>
  For a value within the bounds the five rounded operations move the result by at most
  \<open>(|a| + 5 \<sqdot> (v - a)) \<sqdot> 2\<^sup>-\<^sup>5\<^sup>3\<close> from \<open>v\<close>.
\<close>

lemma error_chain:
  fixes A D D' US M AM R R1 R2 R3 R4 :: real
  assumes "0 \<le> D" and "D' \<le> D + D / 9007199254740992"
    and "US \<le> D' + D' / 9007199254740992" and "M \<le> US + US / 9007199254740992"
    and "AM \<le> A + M" and "R \<le> R1 + R2 + R3 + R4"
    and "R1 \<le> AM / 9007199254740992" and "R2 \<le> US / 9007199254740992"
    and "R3 \<le> D' / 9007199254740992" and "R4 \<le> D / 9007199254740992"
  shows "R \<le> (A + 5 * D) / 9007199254740992"
proof -
  have "M + US + D' \<le> 4 * D" using assms(1-4) by linarith
  then have "AM + US + D' + D \<le> A + 5 * D" using assms(5) by linarith
  then have "(AM + US + D' + D) / 9007199254740992 \<le> (A + 5 * D) / 9007199254740992"
    by (intro divide_right_mono) simp_all
  moreover have "R1 + R2 + R3 + R4
      \<le> AM / 9007199254740992 + US / 9007199254740992 + D' / 9007199254740992
        + D / 9007199254740992"
    using assms(7-10) by (intro add_mono)
  moreover have "AM / 9007199254740992 + US / 9007199254740992 + D' / 9007199254740992
        + D / 9007199254740992 = (AM + US + D' + D) / 9007199254740992"
    by (simp add: add_divide_distrib)
  ultimately show ?thesis using assms(6) by linarith
qed

lemma set_then_get_error:
  assumes "a < b" and "a \<le> v" and "v \<le> b"
  shows "\<bar>fadd a (fmul (clip (fdiv (fsub v a) (fsub b a)) 0 1) (fsub b a)) - v\<bar>
         \<le> (\<bar>a\<bar> + 5 * (v - a)) / 9007199254740992"
proof -
  define d where "d = v - a"
  define d' where "d' = fl64 d"
  define s' where "s' = fl64 (b - a)"
  define t where "t = d' / s'"
  define u where "u = fl64 t"
  define m where "m = fl64 (u * s')"
  define r where "r = fl64 (a + m)"
  have d: "0 \<le> d" using assms(2) by (simp add: d_def)
  have s: "0 < s'" using assms(1) by (simp add: s'_def fl64_pos)
  have d'0: "0 \<le> d'" using d by (simp add: d'_def fl64_nonneg)
  have "d \<le> b - a" using assms(3) by (simp add: d_def)
  then have d's: "d' \<le> s'" unfolding d'_def s'_def by (rule fl64_mono)
  have t: "0 \<le> t" "t \<le> 1" using d'0 d's s by (simp_all add: t_def)
  have u0: "0 \<le> u" using t(1) by (simp add: u_def fl64_nonneg)
  have "fl64 t \<le> fl64 1" using t(2) by (rule fl64_mono)
  then have u1: "u \<le> 1" by (simp add: u_def fl64_1)
  have us: "0 \<le> u * s'" using u0 s by simp
  have m0: "0 \<le> m" using us by (simp add: m_def fl64_nonneg)
  have val: "fadd a (fmul (clip (fdiv (fsub v a) (fsub b a)) 0 1) (fsub b a)) = r"
    using u0 u1
    by (simp add: fadd_def fmul_def fdiv_def fsub_def clip_def r_def m_def u_def t_def
        d'_def s'_def d_def)
  have e4: "\<bar>d' - d\<bar> \<le> d / 9007199254740992"
    using fl64_rel_error [of d] d by (simp add: d'_def)
  have "\<bar>u - t\<bar> * s' \<le> t / 9007199254740992 * s'"
    using fl64_rel_error [of t] t(1) s by (intro mult_right_mono) (simp_all add: u_def)
  moreover have "\<bar>u - t\<bar> * s' = \<bar>u * s' - d'\<bar>"
  proof -
    have "(u - t) * s' = u * s' - d'" using s by (simp add: t_def left_diff_distrib)
    then have "\<bar>u * s' - d'\<bar> = \<bar>u - t\<bar> * \<bar>s'\<bar>" by (simp only: abs_mult [symmetric])
    then show ?thesis using s by simp
  qed
  moreover have "t / 9007199254740992 * s' = d' / 9007199254740992"
    using s by (simp add: t_def)
  ultimately have e3: "\<bar>u * s' - d'\<bar> \<le> d' / 9007199254740992" by simp
  have e2: "\<bar>m - u * s'\<bar> \<le> u * s' / 9007199254740992"
    using fl64_rel_error [of "u * s'"] us by (simp add: m_def)
  have e1: "\<bar>r - (a + m)\<bar> \<le> \<bar>a + m\<bar> / 9007199254740992"
    unfolding r_def by (rule fl64_rel_error)
  have "\<bar>r - v\<bar> \<le> (\<bar>a\<bar> + 5 * d) / 9007199254740992"
  proof (rule error_chain)
    show "0 \<le> d" by (rule d)
    show "d' \<le> d + d / 9007199254740992" using e4 by linarith
    show "u * s' \<le> d' + d' / 9007199254740992" using e3 by linarith
    show "m \<le> u * s' + u * s' / 9007199254740992" using e2 by linarith
    show "\<bar>a + m\<bar> \<le> \<bar>a\<bar> + m" using m0 by linarith
    show "\<bar>r - v\<bar> \<le> \<bar>r - (a + m)\<bar> + \<bar>m - u * s'\<bar> + \<bar>u * s' - d'\<bar> + \<bar>d' - d\<bar>"
      unfolding d_def by linarith
    show "\<bar>r - (a + m)\<bar> \<le> \<bar>a + m\<bar> / 9007199254740992" by (rule e1)
    show "\<bar>m - u * s'\<bar> \<le> u * s' / 9007199254740992" by (rule e2)
    show "\<bar>u * s' - d'\<bar> \<le> d' / 9007199254740992" by (rule e3)
    show "\<bar>d' - d\<bar> \<le> d / 9007199254740992" by (rule e4)
  qed
  then show ?thesis by (simp add: val d_def)
qed

text \<open>
  C7, as amended.  For the continuous hyper-parameter with the bounds \<open>a < b\<close>, all
  numbers binary64: \<^verbatim>\<open>set_value(v)\<close> followed by \<^verbatim>\<open>get_value()\<close> returns
  \<open>a + u \<sqdot> (b - a)\<close> for the stored \<open>u\<close>, each operation rounded.  It returns \<open>a\<close>
  for \<open>v \<le> a\<close>.  For \<open>v \<ge> b\<close> it returns the rounded sum of \<open>a\<close> and the rounded
  width, which is \<open>b\<close> when the width \<open>b - a\<close> is a binary64 number.  For \<open>v\<close> within
  the bounds it returns a number within \<open>(|a| + 5 \<sqdot> (v - a)) \<sqdot> 2\<^sup>-\<^sup>5\<^sup>3\<close> of \<open>v\<close>, and
  \<open>v\<close> itself when \<open>v - a\<close>, \<open>b - a\<close> and their quotient are binary64 numbers, that
  is, when no operation rounds.
\<close>

theorem C7_set_then_get:
  assumes "a < b" and "is_binary64 a" and "is_binary64 b" and "is_binary64 v"
  shows
    "set_then_get \<lparr>search_space = [PFloat a, PFloat b], is_categorical = False, hp_value = x\<rparr>
         (PFloat v)
       = Inr (PFloat (fadd a (fmul (clip (fdiv (fsub v a) (fsub b a)) 0 1) (fsub b a))))
     \<and> (v \<le> a \<longrightarrow>
          set_then_get \<lparr>search_space = [PFloat a, PFloat b], is_categorical = False,
                        hp_value = x\<rparr> (PFloat v)
            = Inr (PFloat a))
     \<and> (b \<le> v \<longrightarrow>
          set_then_get \<lparr>search_space = [PFloat a, PFloat b], is_categorical = False,
                        hp_value = x\<rparr> (PFloat v)
            = Inr (PFloat (fadd a (fsub b a))))
     \<and> (b \<le> v \<and> is_binary64 (b - a) \<longrightarrow>
          set_then_get \<lparr>search_space = [PFloat a, PFloat b], is_categorical = False,
                        hp_value = x\<rparr> (PFloat v)
            = Inr (PFloat b))
     \<and> (a \<le> v \<and> v \<le> b \<longrightarrow>
          (\<exists>w. set_then_get \<lparr>search_space = [PFloat a, PFloat b], is_categorical = False,
                              hp_value = x\<rparr> (PFloat v)
                 = Inr (PFloat w)
               \<and> \<bar>w - v\<bar> \<le> (\<bar>a\<bar> + 5 * (v - a)) / 9007199254740992))
     \<and> (a \<le> v \<and> v \<le> b \<and> is_binary64 (b - a) \<and> is_binary64 (v - a)
          \<and> is_binary64 ((v - a) / (b - a)) \<longrightarrow>
          set_then_get \<lparr>search_space = [PFloat a, PFloat b], is_categorical = False,
                        hp_value = x\<rparr> (PFloat v)
            = Inr (PFloat v))"
proof -
  let ?hp = "\<lparr>search_space = [PFloat a, PFloat b], is_categorical = False, hp_value = x\<rparr>"
  let ?u = "clip (fdiv (fsub v a) (fsub b a)) 0 1"
  have gen: "set_then_get ?hp (PFloat v) = Inr (PFloat (fadd a (fmul ?u (fsub b a))))"
    using assms(1) by (rule set_then_get_float)
  have below: "set_then_get ?hp (PFloat v) = Inr (PFloat a)" if "v \<le> a"
    using assms(2)
    by (simp add: gen normalized_below [OF assms(1) that] fmul_def fadd_def fl64_0
        is_binary64_def)
  have above: "set_then_get ?hp (PFloat v) = Inr (PFloat (fadd a (fsub b a)))" if "b \<le> v"
    by (simp add: gen normalized_above [OF assms(1) that]) (simp add: fmul_def fsub_def fl64_idem)
  have above': "set_then_get ?hp (PFloat v) = Inr (PFloat b)"
    if "b \<le> v \<and> is_binary64 (b - a)"
    using that assms(3) by (simp add: above fadd_def fsub_def is_binary64_def)
  have within: "set_then_get ?hp (PFloat v) = Inr (PFloat v)"
    if h: "a \<le> v \<and> v \<le> b \<and> is_binary64 (b - a) \<and> is_binary64 (v - a)
           \<and> is_binary64 ((v - a) / (b - a))"
  proof -
    have q: "fdiv (fsub v a) (fsub b a) = (v - a) / (b - a)"
      using h by (simp add: fdiv_def fsub_def is_binary64_def)
    have "0 \<le> (v - a) / (b - a)" and "(v - a) / (b - a) \<le> 1"
      using h assms(1) by simp_all
    then have u: "?u = (v - a) / (b - a)" by (simp add: q clip_def)
    have "fmul ((v - a) / (b - a)) (fsub b a) = v - a"
      using h assms(1) by (simp add: fmul_def fsub_def is_binary64_def)
    then have "fmul ?u (fsub b a) = v - a" by (simp only: u)
    then show ?thesis using assms(4) by (simp add: gen fadd_def is_binary64_def)
  qed
  have near: "\<exists>w. set_then_get ?hp (PFloat v) = Inr (PFloat w)
        \<and> \<bar>w - v\<bar> \<le> (\<bar>a\<bar> + 5 * (v - a)) / 9007199254740992"
    if "a \<le> v \<and> v \<le> b"
    using gen set_then_get_error [OF assms(1), of v] that by blast
  from gen below above above' near within show ?thesis by blast
qed

lemma binary64_examples:
  "fl64 4 = 4" "fl64 5 = 5" "fl64 49 = 49" "fl64 (- 1) = - 1" "fl64 (1/4) = 1/4"
  using fl64_eval [of "- 2" "1/4"]
  by (simp_all add: fl64_numeral fl64_uminus fl64_1 py_round_def)

lemma is_binary64_examples:
  "is_binary64 0" "is_binary64 1" "is_binary64 4" "is_binary64 5" "is_binary64 49"
  "is_binary64 (- 1)" "is_binary64 (1/4)"
  by (simp_all add: is_binary64_def fl64_0 fl64_1 binary64_examples)

theorem C7_set_then_get_witness:
  "set_then_get \<lparr>search_space = [PFloat 0, PFloat 4], is_categorical = False, hp_value = None\<rparr>
       (PFloat 1) = Inr (PFloat 1)
   \<and> set_then_get \<lparr>search_space = [PFloat 0, PFloat 4], is_categorical = False, hp_value = None\<rparr>
       (PFloat (- 1)) = Inr (PFloat 0)
   \<and> set_then_get \<lparr>search_space = [PFloat 0, PFloat 4], is_categorical = False, hp_value = None\<rparr>
       (PFloat 5) = Inr (PFloat 4)"
proof -
  let ?hp = "\<lparr>search_space = [PFloat 0, PFloat 4], is_categorical = False, hp_value = None\<rparr>"
  have b: "(0::real) < 4" "is_binary64 0" "is_binary64 4"
    by (simp_all add: is_binary64_examples)
  have v: "is_binary64 1" "is_binary64 (- 1)" "is_binary64 5"
    by (simp_all add: is_binary64_examples)
  have within: "(0::real) \<le> 1 \<and> (1::real) \<le> 4 \<and> is_binary64 (4 - 0) \<and> is_binary64 (1 - 0)
      \<and> is_binary64 ((1 - 0) / (4 - 0))"
    by (simp add: is_binary64_examples)
  have below: "(- 1 :: real) \<le> 0" by simp
  have above: "(4::real) \<le> 5 \<and> is_binary64 (4 - 0)" by (simp add: is_binary64_examples)
  from C7_set_then_get [OF b v(1), of None] within
  have w1: "set_then_get ?hp (PFloat 1) = Inr (PFloat 1)" by blast
  from C7_set_then_get [OF b v(2), of None] below
  have w2: "set_then_get ?hp (PFloat (- 1)) = Inr (PFloat 0)" by blast
  from C7_set_then_get [OF b v(3), of None] above
  have w3: "set_then_get ?hp (PFloat 5) = Inr (PFloat 4)" by blast
  from w1 w2 w3 show ?thesis by blast
qed

text \<open>
  The claim as it stands fails where an operation rounds.  With the bounds \<open>0.0\<close> and
  \<open>49.0\<close> the value \<open>1.0\<close> is stored as the binary64 number nearest to \<open>1/49\<close>, and
  its product with \<open>49.0\<close> rounds to \<open>1 - 2\<^sup>-\<^sup>5\<^sup>3 = 0.9999999999999999\<close>, which is what
  \<^verbatim>\<open>get_value()\<close> returns.
\<close>

theorem C7_set_then_get_counterexample:
  "set_then_get \<lparr>search_space = [PFloat 0, PFloat 49], is_categorical = False, hp_value = None\<rparr>
       (PFloat 1) = Inr (PFloat (9007199254740991 / 9007199254740992))
   \<and> Inr (PFloat (9007199254740991 / 9007199254740992)) \<noteq> (Inr (PFloat 1) :: error + pyval)
   \<and> is_binary64 0 \<and> is_binary64 49 \<and> is_binary64 1 \<and> 0 \<le> (1 :: real) \<and> (1 :: real) \<le> 49"
proof -
  have d: "fsub 1 0 = 1" "fsub 49 0 = 49"
    by (simp_all add: fsub_def fl64_1 binary64_examples)
  have q: "fdiv 1 49 = 5882252574524729 / 288230376151711744"
    unfolding fdiv_def using fl64_eval [of "- 6" "1/49"] by (simp add: py_round_def)
  have u: "clip (5882252574524729 / 288230376151711744) 0 1
      = 5882252574524729 / 288230376151711744"
    by (simp add: clip_def)
  have m: "fmul (5882252574524729 / 288230376151711744) 49
      = 9007199254740991 / 9007199254740992"
    unfolding fmul_def
    using fl64_eval [of "- 1" "5882252574524729 / 288230376151711744 * 49"]
    by (simp add: py_round_def)
  have s: "fadd 0 (9007199254740991 / 9007199254740992) = 9007199254740991 / 9007199254740992"
    unfolding fadd_def
    using fl64_eval [of "- 1" "9007199254740991 / 9007199254740992"]
    by (simp add: py_round_def)
  have "set_then_get \<lparr>search_space = [PFloat 0, PFloat 49], is_categorical = False,
        hp_value = None\<rparr> (PFloat 1)
      = Inr (PFloat (fadd 0 (fmul (clip (fdiv (fsub 1 0) (fsub 49 0)) 0 1) (fsub 49 0))))"
    by (rule set_then_get_float) simp
  also have "\<dots> = Inr (PFloat (9007199254740991 / 9007199254740992))"
    by (simp only: d q u m s)
  finally show ?thesis by (simp add: is_binary64_examples)
qed

section \<open>Selection of differential evolution\<close>

text \<open>
  C8. \<^verbatim>\<open>DifferentialEvolution.select\<close> returns the trial when \<open>parent \<le> trial\<close> under
  the member ordering and the parent otherwise, so a tie goes to the trial; the member it
  returns is weakly better than the parent, and weakly better than the trial as well.
\<close>

theorem C8_DE_select_better_or_equal:
  "DE_select parent trial = (if member_le parent trial then trial else parent)
   \<and> member_le parent (DE_select parent trial)
   \<and> member_le trial (DE_select parent trial)
   \<and> (rank parent = rank trial \<longrightarrow> DE_select parent trial = trial)"
  by (auto simp: DE_select_def member_le_def)

theorem C8_DE_select_witness:
  "rank \<lparr>mid = 1, parameters = [1/2], opaque_state = 0, score = Fl (3/10), minimize = False\<rparr>
     = rank \<lparr>mid = 1, parameters = [1/4], opaque_state = 0, score = Fl (3/10), minimize = False\<rparr>
   \<and> DE_select \<lparr>mid = 1, parameters = [1/2], opaque_state = 0, score = Fl (3/10), minimize = False\<rparr>
        \<lparr>mid = 1, parameters = [1/4], opaque_state = 0, score = Fl (3/10), minimize = False\<rparr>
     = \<lparr>mid = 1, parameters = [1/4], opaque_state = 0, score = Fl (3/10), minimize = False\<rparr>"
  using C8_DE_select_better_or_equal
    [of "\<lparr>mid = 1, parameters = [1/2], opaque_state = 0, score = Fl (3/10), minimize = False\<rparr>"
        "\<lparr>mid = 1, parameters = [1/4], opaque_state = 0, score = Fl (3/10), minimize = False\<rparr>"]
  by (simp add: rank_def member_le_def)

section \<open>Exploitation and exploration\<close>

lemma explore_loop_suffix:
  assumes "explore_factors \<noteq> []" and "i \<le> length (parameters e)"
  shows "explore_loop explore_factors rs [i..<length (parameters e)] e =
     Inr (e\<lparr>parameters := take i (parameters e) @
            map (\<lambda>j. clip (fmul (explore_factors ! (rs j mod length explore_factors))
                                   (parameters e ! j)) 0 1)
              [i..<length (parameters e)]\<rparr>)"
  using assms(2)
proof (induction "length (parameters e) - i" arbitrary: i e)
  case 0
  then show ?case by simp
next
  case (Suc d)
  let ?n = "length (parameters e)"
  let ?f = "\<lambda>j. explore_factors ! (rs j mod length explore_factors)"
  let ?e' = "e\<lparr>parameters := (parameters e)[i := clip (fmul (?f i) (parameters e ! i)) 0 1]\<rparr>"
  from Suc.hyps(2) have i: "i < ?n" by simp
  have upt: "[i..<?n] = i # [Suc i..<?n]" using i by (simp add: upt_conv_Cons)
  have len: "length (parameters ?e') = ?n" by simp
  have IH: "explore_loop explore_factors rs [Suc i..<?n] ?e' =
     Inr (?e'\<lparr>parameters := take (Suc i) (parameters ?e') @
            map (\<lambda>j. clip (fmul (?f j) (parameters ?e' ! j)) 0 1) [Suc i..<?n]\<rparr>)"
    using Suc.hyps(1) [of ?e' "Suc i"] Suc.hyps(2) i by simp
  have same: "map (\<lambda>j. clip (fmul (?f j) (parameters ?e' ! j)) 0 1) [Suc i..<?n]
      = map (\<lambda>j. clip (fmul (?f j) (parameters e ! j)) 0 1) [Suc i..<?n]"
    by (rule map_cong) simp_all
  have tk: "take (Suc i) (parameters ?e')
      = take i (parameters e) @ [clip (fmul (?f i) (parameters e ! i)) 0 1]"
    using i by (simp add: take_Suc_conv_app_nth)
  have step: "explore_loop explore_factors rs [i..<?n] e
      = explore_loop explore_factors rs [Suc i..<?n] ?e'"
    using i assms(1)
    by (subst upt)
       (simp add: bindE_def choice_def member_getitem_def member_setitem_def
          Hyperparameter_mul_def)
  have rhs: "map (\<lambda>j. clip (fmul (?f j) (parameters e ! j)) 0 1) [i..<?n]
      = clip (fmul (?f i) (parameters e ! i)) 0 1
        # map (\<lambda>j. clip (fmul (?f j) (parameters e ! j)) 0 1) [Suc i..<?n]"
    by (subst upt) simp
  show ?case
    unfolding step IH same tk rhs by simp
qed

lemma explore_result:
  assumes "explore_factors \<noteq> []"
  shows "explore explore_factors rs m =
     Inr (m\<lparr>parameters :=
            map (\<lambda>j. clip (fmul (explore_factors ! (rs j mod length explore_factors))
                                   (parameters m ! j)) 0 1)
              [0..<length (parameters m)]\<rparr>)"
  using explore_loop_suffix [OF assms, of 0 m rs] by (simp add: explore_def copy_def)

lemma sorted_members_reverse_set: "set (sorted_members_reverse g) = set g"
  by (simp add: sorted_members_reverse_def)

lemma sorted_members_reverse_descending:
  "sorted (rev (map rank (sorted_members_reverse g)))"
  by (simp add: sorted_members_reverse_def rev_map)

lemma elitists_top:
  assumes "e \<in> set (elitists exploit_factor g)" and "m \<in> set g"
    and "m \<notin> set (elitists exploit_factor g)"
  shows "member_le m e"
proof -
  let ?n = "nat (n_elitists exploit_factor g)"
  let ?s = "sorted_members_reverse g"
  have "m \<in> set (take ?n ?s @ drop ?n ?s)"
    using assms(2) by (simp add: sorted_members_reverse_set)
  then have m: "m \<in> set (drop ?n ?s)"
    using assms(3) unfolding elitists_def set_append by blast
  have "sorted (rev (map rank (take ?n ?s @ drop ?n ?s)))"
    using sorted_members_reverse_descending [of g] by simp
  then have "sorted (rev (map rank (drop ?n ?s)) @ rev (map rank (take ?n ?s)))"
    by (simp only: map_append rev_append)
  then have "\<forall>x\<in>set (rev (map rank (drop ?n ?s))). \<forall>y\<in>set (rev (map rank (take ?n ?s))). x \<le> y"
    by (simp only: sorted_append) simp
  then show ?thesis
    using m assms(1) by (auto simp: member_le_def elitists_def)
qed

lemma elitists_nonempty:
  assumes "g \<noteq> []"
  shows "elitists exploit_factor g \<noteq> []"
proof -
  have "length (elitists exploit_factor g)
      = min (length g) (nat (n_elitists exploit_factor g))"
    by (simp add: elitists_def sorted_members_reverse_def)
  moreover have "0 < nat (n_elitists exploit_factor g)" by (simp add: n_elitists_def)
  ultimately have "0 < length (elitists exploit_factor g)" using assms by simp
  then show ?thesis by auto
qed

text \<open>
  \<^verbatim>\<open>random.choice\<close> is uniform: the draws \<open>0, \<dots>, n - 1\<close> pick the \<open>n\<close> elements in
  turn, and the draws repeat with period \<open>n\<close>.
\<close>

lemma choice_index: "i < length xs \<Longrightarrow> choice xs i = Inr (xs ! i)"
  by (auto simp: choice_def)

lemma choice_period: "choice xs (r + length xs) = choice xs r"
  by (simp add: choice_def)

text \<open>
  The number of elitists is the rounding of the product as binary64 arithmetic evaluates
  it.  For a generation of fewer than \<open>2\<^sup>5\<^sup>3\<close> members it is the number of the
  specification whenever the product is a binary64 number, and whenever the product is
  further than its rounding error \<open>|G| \<sqdot> exploit_factor \<sqdot> 2\<^sup>-\<^sup>5\<^sup>3\<close> from the middle
  between two integers.
\<close>

lemma float_of_length:
  "length g < 9007199254740992 \<Longrightarrow> float_of_int (int (length g)) = real (length g)"
  using fl64_of_int [of "int (length g)"] by (simp add: float_of_int_def)

lemma n_elitists_exact:
  assumes "length g < 9007199254740992"
    and "fl64 (real (length g) * exploit_factor) = real (length g) * exploit_factor"
  shows "n_elitists exploit_factor g = n_elitists_spec exploit_factor g"
  using assms by (simp add: n_elitists_def n_elitists_spec_def float_of_length fmul_def)

lemma n_elitists_agrees:
  assumes "length g < 9007199254740992"
    and "\<bar>real (length g) * exploit_factor
           - of_int (py_round (real (length g) * exploit_factor))\<bar>
         + \<bar>real (length g) * exploit_factor\<bar> / 9007199254740992 < 1/2"
  shows "n_elitists exploit_factor g = n_elitists_spec exploit_factor g"
proof -
  let ?x = "real (length g) * exploit_factor"
  have "\<bar>fl64 ?x - ?x\<bar> \<le> \<bar>?x\<bar> / 9007199254740992" by (rule fl64_rel_error)
  then have "\<bar>fl64 ?x - of_int (py_round ?x)\<bar> < 1/2" using assms(2) by linarith
  then have "py_round (fl64 ?x) = py_round ?x" by (rule py_round_near)
  then show ?thesis
    using assms(1) by (simp add: n_elitists_def n_elitists_spec_def float_of_length fmul_def)
qed

text \<open>
  C9, as amended.  With \<open>n_elitists = max(1, round(|G| \<sqdot> exploit_factor))\<close>, the product
  rounded to binary64 before \<^verbatim>\<open>round\<close>, and the generation sorted descending, the
  elitists are the first \<open>n_elitists\<close> members, and each of them is weakly better than
  every other member (all floats are binary64 numbers, and the generation has fewer than
  \<open>2\<^sup>5\<^sup>3\<close> members).  A member of the generation that is an elitist is returned as a
  copy of itself.  Any other member is returned with the opaque state of the elitist that
  \<^verbatim>\<open>random.choice\<close> picks (the draw \<open>r\<close>, uniform over the elitists) and with that
  elitist's coordinates, each multiplied by a factor that \<^verbatim>\<open>random.choice\<close> picks from
  \<^verbatim>\<open>explore_factors\<close> and then clipped to \<open>[0, 1]\<close>.
\<close>

theorem C9_exploit_and_explore:
  assumes "member \<in> set generation" and "explore_factors \<noteq> []"
    and "length generation < 9007199254740992"
    and "is_binary64 exploit_factor"
    and "\<forall>f \<in> set explore_factors. is_binary64 f"
    and "\<forall>m \<in> set generation. \<forall>u \<in> set (parameters m). is_binary64 u"
  shows
    "n_elitists exploit_factor generation
       = max 1 (py_round (fl64 (real (length generation) * exploit_factor)))
     \<and> (\<bar>real (length generation) * exploit_factor
            - of_int (py_round (real (length generation) * exploit_factor))\<bar>
          + \<bar>real (length generation) * exploit_factor\<bar> / 9007199254740992 < 1/2
          \<longrightarrow> n_elitists exploit_factor generation = n_elitists_spec exploit_factor generation)
     \<and> elitists exploit_factor generation
       = take (nat (n_elitists exploit_factor generation)) (sorted_members_reverse generation)
     \<and> (\<forall>e \<in> set (elitists exploit_factor generation). \<forall>m \<in> set generation.
           m \<in> set (elitists exploit_factor generation) \<or> member_le m e)
     \<and> (member \<in> set (elitists exploit_factor generation) \<longrightarrow>
           exploit_and_explore exploit_factor explore_factors r rs member generation
             = Inr member)
     \<and> (member \<notin> set (elitists exploit_factor generation) \<longrightarrow>
           elitists exploit_factor generation
               ! (r mod length (elitists exploit_factor generation))
             \<in> set (elitists exploit_factor generation)
           \<and> (\<forall>j. explore_factors ! (rs j mod length explore_factors) \<in> set explore_factors)
           \<and> exploit_and_explore exploit_factor explore_factors r rs member generation
             = Inr (member\<lparr>
                 parameters :=
                   map (\<lambda>j. clip (fmul (explore_factors ! (rs j mod length explore_factors))
                                     (parameters (elitists exploit_factor generation
                                        ! (r mod length (elitists exploit_factor generation))) ! j))
                              0 1)
                     [0..<length (parameters (elitists exploit_factor generation
                            ! (r mod length (elitists exploit_factor generation))))],
                 opaque_state :=
                   opaque_state (elitists exploit_factor generation
                     ! (r mod length (elitists exploit_factor generation)))\<rparr>))"
proof -
  let ?E = "elitists exploit_factor generation"
  let ?e = "?E ! (r mod length ?E)"
  from assms(1) have "generation \<noteq> []" by auto
  then have ne: "?E \<noteq> []" by (rule elitists_nonempty)
  then have e_in: "?e \<in> set ?E" by simp
  have f_in: "explore_factors ! (rs j mod length explore_factors) \<in> set explore_factors" for j
    using assms(2) by simp
  have n: "n_elitists exploit_factor generation
      = max 1 (py_round (fl64 (real (length generation) * exploit_factor)))"
    by (simp add: n_elitists_def float_of_length [OF assms(3)] fmul_def)
  have top: "\<forall>e \<in> set ?E. \<forall>m \<in> set generation. m \<in> set ?E \<or> member_le m e"
    using elitists_top by blast
  have keep: "exploit_and_explore exploit_factor explore_factors r rs member generation
      = Inr member" if "member \<in> set ?E"
    using that by (simp add: exploit_and_explore_def copy_def)
  have change: "exploit_and_explore exploit_factor explore_factors r rs member generation
      = Inr (member\<lparr>
          parameters :=
            map (\<lambda>j. clip (fmul (explore_factors ! (rs j mod length explore_factors))
                              (parameters ?e ! j)) 0 1)
              [0..<length (parameters ?e)],
          opaque_state := opaque_state ?e\<rparr>)" if "member \<notin> set ?E"
    using that ne
    by (simp add: exploit_and_explore_def bindE_def choice_def explore_result [OF assms(2)]
        copy_def copy_parameters_def copy_state_def)
  have el: "?E = take (nat (n_elitists exploit_factor generation))
      (sorted_members_reverse generation)"
    by (rule elitists_def)
  show ?thesis
    using n n_elitists_agrees [OF assms(3), of exploit_factor] el top keep change e_in f_in
    by blast
qed

lemma n_elitists_five_members: "n_elitists (1/2) five_members = 2"
proof -
  have v: "fmul (float_of_int 5) (1/2) = 5/2"
    unfolding fmul_def float_of_int_def
    using fl64_eval [of 1 "5/2"] by (simp add: fl64_numeral py_round_def)
  have len: "int (length five_members) = 5" by (simp add: five_members_def)
  have "n_elitists (1/2) five_members = max 1 (py_round (5/2))"
    by (simp only: n_elitists_def len v)
  also have "\<dots> = 2" by (simp add: py_round_def)
  finally show ?thesis .
qed

lemma elitists_five_members:
  "elitists (1/2) five_members = [member_with 5 (1/2) (5/8), member_with 4 (7/8) (1/2)]"
  by (simp add: elitists_def n_elitists_five_members)
     (simp add: sorted_members_reverse_def five_members_def member_with_def rank_def)

lemma is_binary64_five_members:
  "is_binary64 (1/2)" "is_binary64 (3/4)" "is_binary64 (5/4)" "is_binary64 (1/8)"
  "is_binary64 (1/4)" "is_binary64 (3/8)" "is_binary64 (7/8)"
  unfolding is_binary64_def
  using fl64_eval [of "- 1" "1/2"] fl64_eval [of "- 1" "3/4"] fl64_eval [of 0 "5/4"]
    fl64_eval [of "- 3" "1/8"] fl64_eval [of "- 2" "1/4"] fl64_eval [of "- 2" "3/8"]
    fl64_eval [of "- 1" "7/8"]
  by (simp_all add: py_round_def)

lemma products_five_members:
  "fmul (3/4) (1/2) = 3/8" "fmul (5/4) (7/8) = 35/32"
  unfolding fmul_def
  using fl64_eval [of "- 2" "3/8"] fl64_eval [of 0 "35/32"] by (simp_all add: py_round_def)

theorem C9_exploit_and_explore_witness:
  "exploit_and_explore (1/2) [3/4, 5/4] 0 (all_draws 0) (member_with 5 (1/2) (5/8)) five_members
     = Inr (member_with 5 (1/2) (5/8))
   \<and> exploit_and_explore (1/2) [3/4, 5/4] 0 (all_draws 0) (member_with 1 (1/8) (1/8)) five_members
     = Inr \<lparr>mid = 1, parameters = [3/8], opaque_state = 5, score = Fl (1/8), minimize = False\<rparr>"
proof -
  have in5: "member_with 5 (1/2) (5/8) \<in> set five_members"
    and in1: "member_with 1 (1/8) (1/8) \<in> set five_members"
    by (simp_all add: five_members_def)
  have fs: "[3/4, 5/4] \<noteq> ([] :: real list)" by simp
  have len: "length five_members < 9007199254740992" by (simp add: five_members_def)
  have ef: "is_binary64 (1/2)" and fb: "\<forall>f \<in> set [3/4, 5/4]. is_binary64 f"
    and cb: "\<forall>m \<in> set five_members. \<forall>u \<in> set (parameters m). is_binary64 u"
    by (simp_all add: five_members_def member_with_def is_binary64_five_members)
  have e5: "member_with 5 (1/2) (5/8) \<in> set (elitists (1/2) five_members)"
    by (simp add: elitists_five_members)
  have e1: "member_with 1 (1/8) (1/8) \<notin> set (elitists (1/2) five_members)"
    by (simp add: elitists_five_members member_with_def)
  let ?E = "elitists (1/2) five_members"
  from C9_exploit_and_explore [OF in5 fs len ef fb cb, of 0 "all_draws 0"] e5
  have keep: "exploit_and_explore (1/2) [3/4, 5/4] 0 (all_draws 0) (member_with 5 (1/2) (5/8))
      five_members = Inr (member_with 5 (1/2) (5/8))"
    by blast
  from C9_exploit_and_explore [OF in1 fs len ef fb cb, of 0 "all_draws 0"] e1
  have "exploit_and_explore (1/2) [3/4, 5/4] 0 (all_draws 0) (member_with 1 (1/8) (1/8))
      five_members
    = Inr ((member_with 1 (1/8) (1/8))\<lparr>
        parameters :=
          map (\<lambda>j. clip (fmul ([3/4, 5/4] ! (all_draws 0 j mod length [3/4, 5/4 :: real]))
                            (parameters (?E ! (0 mod length ?E)) ! j)) 0 1)
            [0..<length (parameters (?E ! (0 mod length ?E)))],
        opaque_state := opaque_state (?E ! (0 mod length ?E))\<rparr>)"
    by blast
  also have "\<dots> = Inr \<lparr>mid = 1, parameters = [3/8], opaque_state = 5, score = Fl (1/8),
      minimize = False\<rparr>"
    by (simp add: elitists_five_members member_with_def clip_def all_draws_def
        products_five_members)
  finally show ?thesis using keep by simp
qed

text \<open>
  The claim as it stands fails where the product leaves \<open>[0, 1]\<close>: the member with score
  \<open>0.125\<close> takes the coordinate \<open>0.875\<close> of the elitist with score \<open>0.5\<close>, the factor
  drawn is \<open>1.25\<close>, and the coordinate that is returned is \<open>1\<close>, which is neither
  \<open>0.875 \<sqdot> 0.75\<close> nor \<open>0.875 \<sqdot> 1.25\<close>.
\<close>

theorem C9_exploit_and_explore_counterexample:
  "exploit_and_explore (1/2) [3/4, 5/4] 1 (all_draws 1) (member_with 1 (1/8) (1/8)) five_members
     = Inr \<lparr>mid = 1, parameters = [1], opaque_state = 4, score = Fl (1/8), minimize = False\<rparr>
   \<and> parameters (member_with 4 (7/8) (1/2)) = [7/8]
   \<and> [1 :: real] \<noteq> [7/8 * (3/4)] \<and> [1 :: real] \<noteq> [7/8 * (5/4)]"
proof -
  have fs: "[3/4, 5/4] \<noteq> ([] :: real list)" by simp
  have out: "member_with 1 (1/8) (1/8) \<notin> set (elitists (1/2) five_members)"
    by (simp add: elitists_five_members member_with_def)
  have pick: "choice (elitists (1/2) five_members) (Suc 0) = Inr (member_with 4 (7/8) (1/2))"
    by (simp add: elitists_five_members choice_def)
  have "exploit_and_explore (1/2) [3/4, 5/4] 1 (all_draws 1) (member_with 1 (1/8) (1/8)) five_members
      = explore [3/4, 5/4] (all_draws 1)
          (copy_state (copy_parameters (copy (member_with 1 (1/8) (1/8)))
             (member_with 4 (7/8) (1/2))) (member_with 4 (7/8) (1/2)))"
    using out by (simp add: exploit_and_explore_def pick bindE_def)
  also have "\<dots> = Inr \<lparr>mid = 1, parameters = [1], opaque_state = 4, score = Fl (1/8),
        minimize = False\<rparr>"
    by (simp add: explore_result [OF fs] copy_def copy_parameters_def copy_state_def
        member_with_def clip_def all_draws_def products_five_members)
  finally show ?thesis by (simp add: member_with_def)
qed

section \<open>The weighted Lehmer mean\<close>

lemma weighted_sum_zip:
  "i + length S \<le> length ws \<Longrightarrow> sum_list ws \<noteq> 0 \<Longrightarrow>
   weighted_sum g ws i S = Inr (\<Sum>(w, s) \<leftarrow> zip (drop i ws) S. w / sum_list ws * g s)"
proof (induction S arbitrary: i)
  case Nil
  show ?case by simp
next
  case (Cons s S)
  from Cons.prems have i: "i < length ws" by simp
  have step: "weight ws i = Inr (ws ! i / sum_list ws)"
    using i Cons.prems(2) by (simp add: weight_def)
  have rest: "weighted_sum g ws (Suc i) S
      = Inr (\<Sum>(w, s) \<leftarrow> zip (drop (Suc i) ws) S. w / sum_list ws * g s)"
    using Cons.prems by (intro Cons.IH) simp_all
  have split: "drop i ws = ws ! i # drop (Suc i) ws"
    using i by (simp add: Cons_nth_drop_Suc)
  show ?case by (simp add: step rest split)
qed

lemma mean_wl_lehmer:
  assumes "length S \<le> length ws" and "sum_list ws \<noteq> 0"
    and "lehmer_denominator S ws \<noteq> 0"
  shows "mean_wl S ws = Inr (lehmer_mean S ws)"
  using assms by (simp add: mean_wl_def lehmer_mean_def lehmer_denominator_def weighted_sum_zip)

text \<open>
  The denominators are positive on the samples SHADE records: positive weights, and
  samples that are not negative and not all zero.
\<close>

lemma sum_list_pos_weights:
  "ws \<noteq> [] \<Longrightarrow> \<forall>w\<in>set ws. 0 < w \<Longrightarrow> 0 < sum_list (ws :: real list)"
  by (induction ws) (auto intro: add_pos_nonneg sum_list_nonneg less_imp_le)

lemma zip_sum_nonneg:
  "\<forall>w\<in>set ws. 0 < w \<Longrightarrow> \<forall>s\<in>set S. 0 \<le> s \<Longrightarrow> 0 < (c :: real) \<Longrightarrow>
   0 \<le> (\<Sum>(w, s) \<leftarrow> zip ws S. w / c * s)"
  by (induction ws S rule: list_induct2') (auto intro!: add_nonneg_nonneg mult_nonneg_nonneg)

lemma zip_sum_pos:
  "length S = length ws \<Longrightarrow> \<forall>w\<in>set ws. 0 < w \<Longrightarrow> \<forall>s\<in>set S. 0 \<le> s \<Longrightarrow>
   \<exists>s\<in>set S. 0 < s \<Longrightarrow> 0 < (c :: real) \<Longrightarrow>
   0 < (\<Sum>(w, s) \<leftarrow> zip ws S. w / c * s)"
proof (induction ws S rule: list_induct2')
  case (4 w ws s S)
  have tail: "0 \<le> (\<Sum>(w, s) \<leftarrow> zip ws S. w / c * s)"
    using 4 by (intro zip_sum_nonneg) auto
  have head: "0 \<le> w / c * s" using 4 by (auto intro!: mult_nonneg_nonneg)
  show ?case
  proof (cases "0 < s")
    case True
    then have "0 < w / c * s" using 4 by (auto intro!: mult_pos_pos)
    with tail show ?thesis by simp
  next
    case False
    then have "\<exists>s\<in>set S. 0 < s" using 4 by auto
    then have "0 < (\<Sum>(w, s) \<leftarrow> zip ws S. w / c * s)"
      using 4 by (intro "4.IH") auto
    with head show ?thesis by simp
  qed
qed simp_all

lemma lehmer_denominator_pos:
  assumes "length S = length ws" and "\<forall>w\<in>set ws. 0 < w" and "\<forall>s\<in>set S. 0 \<le> s"
    and "\<exists>s\<in>set S. 0 < s"
  shows "0 < lehmer_denominator S ws"
proof -
  from assms(1,4) have "ws \<noteq> []" by auto
  then have "0 < sum_list ws" using assms(2) by (rule sum_list_pos_weights)
  then show ?thesis
    unfolding lehmer_denominator_def using assms by (intro zip_sum_pos)
qed

lemma py_max_ge: "xs \<noteq> [] \<Longrightarrow> x \<in> set xs \<Longrightarrow> x \<le> py_max xs"
proof -
  have fold_ge: "\<And>a. a \<le> fold max ys a \<and> (\<forall>y\<in>set ys. y \<le> fold max ys a)" for ys :: "real list"
  proof (induction ys)
    case Nil
    show ?case by simp
  next
    case (Cons y ys)
    have "max y a \<le> fold max ys (max y a)" using Cons.IH by blast
    then show ?case using Cons.IH [of "max y a"] by auto
  qed
  assume "xs \<noteq> []" and "x \<in> set xs"
  then show ?thesis
    using fold_ge [of "hd xs" "tl xs"] by (cases xs) (auto simp: py_max_def)
qed

lemma py_max_in: "xs \<noteq> [] \<Longrightarrow> py_max xs \<in> set xs"
proof -
  have fold_in: "\<And>a. fold max ys a \<in> insert a (set ys)" for ys :: "real list"
  proof (induction ys)
    case Nil
    show ?case by simp
  next
    case (Cons y ys)
    show ?case using Cons.IH [of "max y a"] by (auto simp: max_def split: if_splits)
  qed
  assume "xs \<noteq> []"
  then show ?thesis using fold_in [of "tl xs" "hd xs"] by (cases xs) (auto simp: py_max_def)
qed

lemma lehmer_denominator_cr:
  assumes "S \<noteq> []" and "length S = length ws" and "\<forall>w\<in>set ws. 0 < w"
    and "\<forall>s\<in>set S. 0 \<le> s" and "py_max S \<noteq> 0"
  shows "lehmer_denominator S ws \<noteq> 0"
proof -
  have "py_max S \<in> set S" using assms(1) by (rule py_max_in)
  then have "\<exists>s\<in>set S. 0 < s" using assms(4,5) by force
  then have "0 < lehmer_denominator S ws"
    using assms(2,3,4) by (intro lehmer_denominator_pos) simp_all
  then show ?thesis by simp
qed

section \<open>The update of the historical memory\<close>


lemma update_samples:
  assumes ne: "s_cr hm \<noteq> []" "s_f hm \<noteq> []" "weights hm \<noteq> []"
    and len: "length (s_cr hm) = length (weights hm)" "length (s_f hm) = length (weights hm)"
    and arr: "hm_size hm = int (length (m_cr hm))" "length (m_f hm) = length (m_cr hm)"
      "hm_k hm < length (m_cr hm)"
    and sum: "sum_list (weights hm) \<noteq> 0"
    and den_f: "lehmer_denominator (s_f hm) (weights hm) \<noteq> 0"
    and den_cr: "m_cr hm ! hm_k hm \<noteq> None \<and> py_max (s_cr hm) \<noteq> 0
        \<longrightarrow> lehmer_denominator (s_cr hm) (weights hm) \<noteq> 0"
  shows "HistoricalMemory_update hm =
     Inr (hm\<lparr>m_cr := (m_cr hm)[hm_k hm :=
                   (if m_cr hm ! hm_k hm = None \<or> py_max (s_cr hm) = 0 then None
                    else Some (lehmer_mean (s_cr hm) (weights hm)))],
              m_f := (m_f hm)[hm_k hm := lehmer_mean (s_f hm) (weights hm)],
              hm_k := (hm_k hm + 1) mod nat (hm_size hm)\<rparr>)"
proof -
  have f: "mean_wl (s_f hm) (weights hm) = Inr (lehmer_mean (s_f hm) (weights hm))"
    using len sum den_f by (intro mean_wl_lehmer) simp_all
  have cr: "m_cr hm ! hm_k hm \<noteq> None \<and> py_max (s_cr hm) \<noteq> 0 \<Longrightarrow>
      mean_wl (s_cr hm) (weights hm) = Inr (lehmer_mean (s_cr hm) (weights hm))"
    using len sum den_cr by (intro mean_wl_lehmer) simp_all
  have cursor: "(if hm_size hm - 1 \<le> int (hm_k hm) then 0 else hm_k hm + 1)
      = (hm_k hm + 1) mod nat (hm_size hm)"
    using arr by (auto simp: mod_Suc)
  show ?thesis
  proof (cases "m_cr hm ! hm_k hm = None \<or> py_max (s_cr hm) = 0")
    case True
    then show ?thesis
      using ne arr(2,3) by (simp add: HistoricalMemory_update_def f cursor)
  next
    case False
    then have "mean_wl (s_cr hm) (weights hm) = Inr (lehmer_mean (s_cr hm) (weights hm))"
      using cr by simp
    then show ?thesis
      using False ne arr(2,3) by (auto simp: HistoricalMemory_update_def f cursor)
  qed
qed

text \<open>
  On the samples that SHADE records (weights positive, \<open>CR\<close> and \<open>F\<close> samples not
  negative) the means are defined as soon as one \<open>F\<close> sample is positive.
\<close>

lemma update_recorded_samples:
  assumes ne: "weights hm \<noteq> []"
    and len: "length (s_cr hm) = length (weights hm)" "length (s_f hm) = length (weights hm)"
    and arr: "hm_size hm = int (length (m_cr hm))" "length (m_f hm) = length (m_cr hm)"
      "hm_k hm < length (m_cr hm)"
    and pos: "\<forall>w\<in>set (weights hm). 0 < w" "\<forall>c\<in>set (s_cr hm). 0 \<le> c"
      "\<forall>f\<in>set (s_f hm). 0 \<le> f" "\<exists>f\<in>set (s_f hm). 0 < f"
  shows "HistoricalMemory_update hm =
     Inr (hm\<lparr>m_cr := (m_cr hm)[hm_k hm :=
                   (if m_cr hm ! hm_k hm = None \<or> py_max (s_cr hm) = 0 then None
                    else Some (lehmer_mean (s_cr hm) (weights hm)))],
              m_f := (m_f hm)[hm_k hm := lehmer_mean (s_f hm) (weights hm)],
              hm_k := (hm_k hm + 1) mod nat (hm_size hm)\<rparr>)"
proof -
  from ne len have ne': "s_cr hm \<noteq> []" "s_f hm \<noteq> []" by auto
  have "0 < sum_list (weights hm)" using ne pos(1) by (rule sum_list_pos_weights)
  then have sum: "sum_list (weights hm) \<noteq> 0" by simp
  have "0 < lehmer_denominator (s_f hm) (weights hm)"
    using len(2) pos(1,3,4) by (rule lehmer_denominator_pos)
  then have den_f: "lehmer_denominator (s_f hm) (weights hm) \<noteq> 0" by simp
  have den_cr: "m_cr hm ! hm_k hm \<noteq> None \<and> py_max (s_cr hm) \<noteq> 0
      \<longrightarrow> lehmer_denominator (s_cr hm) (weights hm) \<noteq> 0"
    using lehmer_denominator_cr [OF ne'(1) len(1) pos(1,2)] by blast
  show ?thesis
    by (rule update_samples [OF ne' ne len arr sum den_f den_cr])
qed



section \<open>Selection of SHADE\<close>

lemma not_member_le_iff: "\<not> member_le a b \<longleftrightarrow> member_lt b a"
  by (auto simp: member_le_def member_lt_def)

lemma randrange_full:
  "xs \<noteq> [] \<Longrightarrow> randrange (real (length xs)) r = Inr (r mod length xs)"
  by (simp add: randrange_def)

text \<open>
  C10. When the parent is strictly better than the trial, \<^verbatim>\<open>SHADE.select\<close> returns the
  parent and the engine as it was: archive, sample buffers, memory arrays, cursor and the
  maps \<open>CR\<close> and \<open>F\<close> are those of the state before the call.
\<close>

theorem C10_SHADE_select_frame:
  "member_lt trial parent \<Longrightarrow> SHADE_select s r parent trial = Inr (parent, s)"
  by (simp add: SHADE_select_def not_member_le_iff [symmetric])

theorem C10_SHADE_select_frame_witness:
  "member_lt (member_of 1 (1/5)) (member_of 1 (3/10))
   \<and> SHADE_select (shade_of 2) 0 (member_of 1 (3/10)) (member_of 1 (1/5))
       = Inr (member_of 1 (3/10), shade_of 2)"
proof -
  have lt: "member_lt (member_of 1 (1/5)) (member_of 1 (3/10))"
    by (simp add: member_lt_def rank_def member_of_def)
  from C10_SHADE_select_frame [OF lt] lt show ?thesis by simp
qed

lemma SHADE_select_success:
  assumes cr: "CR s (mid parent) = Some cr_i" and f: "F s (mid parent) = Some f_i"
    and range: "0 \<le> cr_i" "cr_i \<le> 1" "0 \<le> f_i"
    and cap: "\<not> (ea_items (archive s) = [] \<and> ea_size (archive s) = 0)"
    and le: "member_le parent trial"
  shows "SHADE_select s r parent trial =
     Inr (trial,
          s\<lparr>archive := (archive s)\<lparr>ea_items :=
                 (if real (length (ea_items (archive s))) = ea_size (archive s)
                  then delete_at (r mod length (ea_items (archive s))) (ea_items (archive s))
                  else ea_items (archive s)) @ [copy parent]\<rparr>,
            memory := (memory s)\<lparr>
                 s_cr := s_cr (memory s) @ [cr_i],
                 s_f := s_f (memory s) @ [f_i],
                 weights := weights (memory s) @
                   [case py_abs (py_sub (score trial) (score parent)) of
                      NaN \<Rightarrow> 1 / 10 ^ 9
                    | Fl x \<Rightarrow> if x = 0 then 1 / 10 ^ 9 else x]\<rparr>\<rparr>)"
proof (cases "real (length (ea_items (archive s))) = ea_size (archive s)")
  case True
  with cap have ne: "ea_items (archive s) \<noteq> []" by auto
  have "randrange (ea_size (archive s)) r = Inr (r mod length (ea_items (archive s)))"
    using randrange_full [OF ne, of r] True by simp
  then show ?thesis
    using True le cr f range
    by (simp add: SHADE_select_def ExternalArchive_append_def HistoricalMemory_record_def)
next
  case False
  then show ?thesis
    using le cr f range
    by (simp add: SHADE_select_def ExternalArchive_append_def HistoricalMemory_record_def)
qed

text \<open>
  C2, as amended.  For a parent whose control parameters \<open>CR\<^sub>i \<in> [0, 1]\<close> and
  \<open>F\<^sub>i \<ge> 0\<close> are recorded, and an archive whose capacity is not zero: if
  \<open>parent \<le> trial\<close>, \<^verbatim>\<open>SHADE.select\<close> appends a copy of the parent to the archive
  (after the eviction of one entry when the archive is full), appends \<open>CR\<^sub>i\<close> to
  \<open>S_CR\<close>, \<open>F\<^sub>i\<close> to \<open>S_F\<close> and to the weights the score difference
  \<open>|trial.score - parent.score|\<close>, or \<open>10\<^sup>-\<^sup>9\<close> in its place when the difference is zero
  or NaN, and returns the trial; otherwise it returns the parent and changes nothing.
\<close>

theorem C2_SHADE_select:
  assumes "CR s (mid parent) = Some cr_i" and "F s (mid parent) = Some f_i"
    and "0 \<le> cr_i" and "cr_i \<le> 1" and "0 \<le> f_i"
    and "\<not> (ea_items (archive s) = [] \<and> ea_size (archive s) = 0)"
  shows "SHADE_select s r parent trial =
     (if member_le parent trial
      then Inr (trial,
          s\<lparr>archive := (archive s)\<lparr>ea_items :=
                 (if real (length (ea_items (archive s))) = ea_size (archive s)
                  then delete_at (r mod length (ea_items (archive s))) (ea_items (archive s))
                  else ea_items (archive s)) @ [copy parent]\<rparr>,
            memory := (memory s)\<lparr>
                 s_cr := s_cr (memory s) @ [cr_i],
                 s_f := s_f (memory s) @ [f_i],
                 weights := weights (memory s) @
                   [case py_abs (py_sub (score trial) (score parent)) of
                      NaN \<Rightarrow> 1 / 10 ^ 9
                    | Fl x \<Rightarrow> if x = 0 then 1 / 10 ^ 9 else x]\<rparr>\<rparr>)
      else Inr (parent, s))"
proof (cases "member_le parent trial")
  case True
  then show ?thesis using SHADE_select_success [OF assms True] by simp
next
  case False
  then show ?thesis by (simp add: SHADE_select_def)
qed

theorem C2_SHADE_select_witness:
  "SHADE_select (shade_of 2) 0 (member_of 1 (1/5)) (member_of 1 (3/10))
     = Inr (member_of 1 (3/10),
            (shade_of 2)\<lparr>
              archive := \<lparr>ea_items = [member_of 1 (1/5)], ea_size = 40\<rparr>,
              memory := (HistoricalMemory_init 5 (1/2))
                 \<lparr>s_cr := [1/2], s_f := [1/2], weights := [1/10]\<rparr>\<rparr>)
   \<and> SHADE_select (shade_of 2) 0 (member_of 1 (3/10)) (member_of 1 (1/5))
     = Inr (member_of 1 (3/10), shade_of 2)"
  using C2_SHADE_select [of "shade_of 2" "member_of 1 (1/5)" "1/2" "1/2" 0 "member_of 1 (3/10)"]
    C2_SHADE_select [of "shade_of 2" "member_of 1 (3/10)" "1/2" "1/2" 0 "member_of 1 (1/5)"]
  by (simp add: shade_of_def member_of_def member_le_def rank_def ExternalArchive_init_def
      HistoricalMemory_init_def py_round_def copy_def)

text \<open>
  The claim as it stands fails on a tie: with equal scores \<open>parent \<le> trial\<close> holds, the
  difference of the scores is \<open>0\<close>, and the weight that is recorded is \<open>10\<^sup>-\<^sup>9\<close>.
\<close>

theorem C2_SHADE_select_counterexample:
  "SHADE_select (shade_of 2) 0 (member_of 1 (3/10)) (member_of 2 (3/10))
     = Inr (member_of 2 (3/10),
            (shade_of 2)\<lparr>
              archive := \<lparr>ea_items = [member_of 1 (3/10)], ea_size = 40\<rparr>,
              memory := (HistoricalMemory_init 5 (1/2))
                 \<lparr>s_cr := [1/2], s_f := [1/2], weights := [1 / 10 ^ 9]\<rparr>\<rparr>)
   \<and> py_abs (py_sub (score (member_of 2 (3/10))) (score (member_of 1 (3/10)))) = Fl 0
   \<and> [Fl (1 / 10 ^ 9)]
       \<noteq> [py_abs (py_sub (score (member_of 2 (3/10))) (score (member_of 1 (3/10))))]"
  by (simp add: SHADE_select_def ExternalArchive_append_def HistoricalMemory_record_def
      shade_of_def member_of_def member_le_def rank_def ExternalArchive_init_def
      HistoricalMemory_init_def py_round_def copy_def)

section \<open>The archive bound\<close>

text \<open>
  With a capacity that is a natural number, as \<^verbatim>\<open>SHADE.__init__\<close> sets it,
  \<^verbatim>\<open>append\<close> keeps the archive within its capacity; it raises on capacity \<open>0\<close>.
\<close>

lemma length_delete_at: "i < length xs \<Longrightarrow> length (delete_at i xs) = length xs - 1"
  by (simp add: delete_at_def)

lemma ExternalArchive_append_bound:
  assumes "ea_size a = real n" and "length (ea_items a) \<le> n"
    and "ExternalArchive_append a r parent = Inr a'"
  shows "length (ea_items a') \<le> n \<and> ea_size a' = ea_size a"
proof (cases "length (ea_items a) = n")
  case True
  with assms(1,3) have "n \<noteq> 0"
    by (auto simp: ExternalArchive_append_def randrange_def)
  then have "ea_items a \<noteq> []" using True by auto
  then have "randrange (ea_size a) r = Inr (r mod length (ea_items a))"
    using randrange_full [of "ea_items a" r] True assms(1) by simp
  then have "a' = a\<lparr>ea_items := delete_at (r mod length (ea_items a)) (ea_items a) @ [parent]\<rparr>"
    using assms(1,3) True by (simp add: ExternalArchive_append_def)
  then show ?thesis
    using True \<open>n \<noteq> 0\<close> by (simp add: length_delete_at)
next
  case False
  then have "a' = a\<lparr>ea_items := ea_items a @ [parent]\<rparr>"
    using assms(1,3) by (simp add: ExternalArchive_append_def)
  then show ?thesis using False assms(2) by simp
qed

lemma ExternalArchive_append_returns:
  assumes "ea_size a = real n" and "0 < n"
  shows "\<exists>a'. ExternalArchive_append a r parent = Inr a'"
  using assms by (simp add: ExternalArchive_append_def randrange_def)

text \<open>
  So the archive of a SHADE engine, built empty with the rounded capacity, stays within
  its capacity through every selection.
\<close>

lemma SHADE_select_archive_bound:
  assumes "ea_size (archive s) = real n" and "length (ea_items (archive s)) \<le> n"
    and "SHADE_select s r parent trial = Inr (m, s')"
  shows "length (ea_items (archive s')) \<le> n \<and> ea_size (archive s') = real n"
proof (cases "member_le parent trial")
  case True
  with assms(3) obtain a where a: "ExternalArchive_append (archive s) r (copy parent) = Inr a"
    and s': "archive s' = a"
    by (auto simp: SHADE_select_def Let_def split: sum.splits option.splits)
  from ExternalArchive_append_bound [OF assms(1,2) a] s' assms(1) show ?thesis by simp
next
  case False
  with assms show ?thesis by (simp add: SHADE_select_def)
qed

text \<open>
  The new population size for \<open>N_INIT = 20\<close>, \<open>N_MIN = 4\<close>, \<open>MAX_NFE = 1000\<close> and
  \<open>NFE = 940\<close>: the three operations give \<open>4.959999999999999\<close>, which rounds to \<open>5\<close>.
\<close>

lemma new_size_940:
  assumes "N_INIT s = 20" and "N_MIN s = 4" and "MAX_NFE s = 1000" and "nfe s = 940"
  shows "new_size s = 5"
proof -
  have q: "int_truediv (- 16) 1000 = - (1152921504606847 / 72057594037927936)"
    unfolding int_truediv_def
    using fl64_eval [of "- 6" "real_of_int (- 16) / real_of_int 1000"] by (simp add: py_round_def)
  have n: "float_of_int 940 = 940" and i: "float_of_int 20 = 20"
    by (simp_all add: float_of_int_def fl64_numeral fl64_0)
  have p: "fmul (- (1152921504606847 / 72057594037927936)) 940 = - (8466767299456533 / 562949953421312)"
    unfolding fmul_def
    using fl64_eval [of "3" "- (1152921504606847 / 72057594037927936) * 940"] by (simp add: py_round_def)
  have r: "fadd (- (8466767299456533 / 562949953421312)) 20 = 2792231768969707 / 562949953421312"
    unfolding fadd_def
    using fl64_eval [of "2" "- (8466767299456533 / 562949953421312) + 20"] by (simp add: py_round_def)
  have "new_size s = py_round (fadd (fmul (int_truediv (- 16) 1000) (float_of_int 940)) (float_of_int 20))"
    using assms by (simp add: new_size_def)
  also have "\<dots> = py_round (2792231768969707 / 562949953421312)"
    by (simp only: q n i p r)
  also have "\<dots> = 5"
    by (simp add: py_round_def)
  finally show ?thesis .
qed

text \<open>
  C1. \<^verbatim>\<open>LSHADE.adjust_generation_size\<close> assigns \<^verbatim>\<open>new_size * self.r_arc\<close> to the
  capacity, without the \<^verbatim>\<open>round\<close> of \<^verbatim>\<open>SHADE.__init__\<close>.  With \<open>r_arc = 1.5\<close>,
  \<open>N_INIT = 20\<close>, \<open>MAX_NFE = 1000\<close> and \<open>NFE = 940\<close> a generation of six members shrinks
  to \<open>N_new = 5\<close>; the capacity becomes \<open>7.5\<close>, where \<open>round(5 \<sqdot> 1.5) = 8\<close>.  No length
  equals \<open>7.5\<close>, so \<^verbatim>\<open>append\<close> evicts nothing from then on: an archive of seven entries
  grows to eight, above its capacity.
\<close>

theorem C1_archive_capacity_not_rounded:
  "new_size (lshade_of (3/2) 940) = 5
   \<and> map_sum id (\<lambda>(s, g). (ea_size (archive s), map mid g))
        (adjust_generation_size (lshade_of (3/2) 940)
           [member_of 1 (1/2), member_of 2 (1/10), member_of 3 (3/10),
            member_of 4 (2/5), member_of 5 (1/5), member_of 6 (3/5)])
       = Inr (15/2, [1, 3, 4, 5, 6])
   \<and> py_round (of_int (new_size (lshade_of (3/2) 940)) * r_arc (lshade_of (3/2) 940)) = 8
   \<and> map_sum id (\<lambda>a. (length (ea_items a), ea_size a))
        (ExternalArchive_append
           \<lparr>ea_items = map (\<lambda>i. member_of i (1/2)) [1, 2, 3, 4, 5, 6, 7], ea_size = 15/2\<rparr>
           r (member_of 8 (1/2)))
       = Inr (8, 15/2)"
proof -
  have n: "new_size (lshade_of (3/2) 940) = 5"
    by (rule new_size_940)
       (simp_all add: lshade_of_def shade_of_def shade.extend_def lshade.fields_def)
  have cap: "fmul (float_of_int 5) (3/2) = 15/2"
    unfolding fmul_def float_of_int_def
    using fl64_eval [of 2 "15/2"] by (simp add: fl64_numeral py_round_def)
  have srt: "sorted_members
        [member_of 1 (1/2), member_of 2 (1/10), member_of 3 (3/10),
         member_of 4 (2/5), member_of 5 (1/5), member_of 6 (3/5)]
      = [member_of 2 (1/10), member_of 5 (1/5), member_of 3 (3/10),
         member_of 4 (2/5), member_of 1 (1/2), member_of 6 (3/5)]"
    by (simp add: sorted_members_def member_of_def rank_def)
  have adj: "map_sum id (\<lambda>(s, g). (ea_size (archive s), map mid g))
        (adjust_generation_size (lshade_of (3/2) 940)
           [member_of 1 (1/2), member_of 2 (1/10), member_of 3 (3/10),
            member_of 4 (2/5), member_of 5 (1/5), member_of 6 (3/5)])
       = Inr (15/2, [1, 3, 4, 5, 6])"
    by (simp add: adjust_generation_size_def worst_members_def n srt Generation_remove_def)
       (simp add: lshade_of_def shade_of_def shade.extend_def lshade.fields_def member_of_def cap)
  have rnd: "py_round (of_int (new_size (lshade_of (3/2) 940)) * r_arc (lshade_of (3/2) 940)) = 8"
    by (simp add: n) (simp add: lshade_of_def shade_of_def shade.extend_def py_round_def)
  have app: "map_sum id (\<lambda>a. (length (ea_items a), ea_size a))
        (ExternalArchive_append
           \<lparr>ea_items = map (\<lambda>i. member_of i (1/2)) [1, 2, 3, 4, 5, 6, 7], ea_size = 15/2\<rparr>
           r (member_of 8 (1/2)))
       = Inr (8, 15/2)"
    by (simp add: ExternalArchive_append_def)
  from n adj rnd app show ?thesis by blast
qed

section \<open>Linear population size reduction\<close>

lemma fold_Generation_remove:
  "fold Generation_remove ws g = filter (\<lambda>x. mid x \<notin> mid ` set ws) g"
proof (induction ws arbitrary: g)
  case Nil
  show ?case by simp
next
  case (Cons w ws)
  have "fold Generation_remove (w # ws) g
      = filter (\<lambda>x. mid x \<notin> mid ` set ws) (filter (\<lambda>x. mid x \<noteq> mid w) g)"
    by (simp add: Cons.IH Generation_remove_def)
  also have "\<dots> = filter (\<lambda>x. mid x \<notin> mid ` set (w # ws)) g"
    by (auto intro: filter_cong)
  finally show ?case .
qed

lemma remove_by_id:
  assumes "distinct (map mid g)" and "set ws \<subseteq> set g"
  shows "filter (\<lambda>x. mid x \<notin> mid ` set ws) g = filter (\<lambda>x. x \<notin> set ws) g"
proof (rule filter_cong [OF refl])
  fix x assume x: "x \<in> set g"
  have inj: "inj_on mid (set g)" using assms(1) by (simp add: distinct_map)
  show "(mid x \<notin> mid ` set ws) = (x \<notin> set ws)"
    using inj x assms(2) by (auto dest: inj_onD)
qed

lemma sorted_take_drop_le:
  assumes "sorted (map f xs)" and "a \<in> set (take n xs)" and "b \<in> set (drop n xs)"
  shows "f a \<le> f b"
proof -
  have "sorted (map f (take n xs) @ map f (drop n xs))"
    using assms(1) by (simp flip: map_append)
  then show ?thesis using assms(2,3) by (auto simp: sorted_append)
qed

lemma adjust_generation_size_shrinks:
  assumes max: "MAX_NFE s \<noteq> 0" and ids: "distinct (map mid g)"
    and hi: "new_size s < int (length g)"
  shows "adjust_generation_size s g =
           Inr (s\<lparr>archive := (archive s)
                    \<lparr>ea_size := fmul (float_of_int (new_size s)) (r_arc s)\<rparr>\<rparr>,
                filter (\<lambda>x. x \<notin> set (worst_members s g)) g)"
    and "length (worst_members s g) = length g - nat (new_size s)"
    and "set (worst_members s g) \<subseteq> set g"
    and "length (filter (\<lambda>x. x \<notin> set (worst_members s g)) g) = nat (new_size s)"
    and "\<forall>w \<in> set (worst_members s g). \<forall>k \<in> set (filter (\<lambda>x. x \<notin> set (worst_members s g)) g).
           member_le w k"
proof -
  let ?d = "nat (int (length g) - new_size s)"
  let ?W = "worst_members s g"
  have W: "?W = take ?d (sorted_members g)" by (simp add: worst_members_def)
  have dg: "distinct g" using ids by (simp add: distinct_map)
  have ds: "distinct (sorted_members g)" using dg by (simp add: sorted_members_def)
  have sub: "set ?W \<subseteq> set g"
    unfolding W using set_take_subset [of ?d "sorted_members g"]
    by (simp add: sorted_members_def)
  show "set ?W \<subseteq> set g" by (rule sub)
  have "length ?W = min (length g) ?d" by (simp add: W sorted_members_def)
  also have "\<dots> = length g - nat (new_size s)" using hi by linarith
  finally show lenW: "length ?W = length g - nat (new_size s)" .
  show "adjust_generation_size s g =
           Inr (s\<lparr>archive := (archive s)
                    \<lparr>ea_size := fmul (float_of_int (new_size s)) (r_arc s)\<rparr>\<rparr>,
                filter (\<lambda>x. x \<notin> set ?W) g)"
    using max hi remove_by_id [OF ids sub]
    by (simp add: adjust_generation_size_def fold_Generation_remove)
  have dW: "distinct ?W" unfolding W using ds by (rule distinct_take)
  have "length (filter (\<lambda>x. x \<in> set ?W) g) = card ({x. x \<in> set ?W} \<inter> set g)"
    using dg by (rule distinct_length_filter)
  also have "{x. x \<in> set ?W} \<inter> set g = set ?W" using sub by auto
  also have "card (set ?W) = length ?W" using dW by (rule distinct_card)
  finally have inW: "length (filter (\<lambda>x. x \<in> set ?W) g) = length ?W" .
  have "length (filter (\<lambda>x. x \<in> set ?W) g) + length (filter (\<lambda>x. \<not> x \<in> set ?W) g) = length g"
    by (rule sum_length_filter_compl)
  then show "length (filter (\<lambda>x. x \<notin> set ?W) g) = nat (new_size s)"
    using inW lenW hi by linarith
  show "\<forall>w \<in> set ?W. \<forall>k \<in> set (filter (\<lambda>x. x \<notin> set ?W) g). member_le w k"
  proof (intro ballI)
    fix w k
    assume w: "w \<in> set ?W" and k: "k \<in> set (filter (\<lambda>x. x \<notin> set ?W) g)"
    from k have "k \<in> set (sorted_members g)" and "k \<notin> set (take ?d (sorted_members g))"
      by (simp_all add: W sorted_members_def)
    then have "k \<in> set (drop ?d (sorted_members g))"
      using set_append [of "take ?d (sorted_members g)" "drop ?d (sorted_members g)"]
      by (simp del: set_append)
    moreover have "sorted (map rank (sorted_members g))"
      by (simp add: sorted_members_def)
    ultimately show "member_le w k"
      using w unfolding W member_le_def by (intro sorted_take_drop_le [where n = ?d]) 
  qed
qed

lemma adjust_generation_size_unchanged:
  "MAX_NFE s \<noteq> 0 \<Longrightarrow> int (length g) \<le> new_size s \<Longrightarrow> adjust_generation_size s g = Inr (s, g)"
  by (simp add: adjust_generation_size_def)

text \<open>
  The three rounded operations move the value of the expression by at most
  \<open>(4 \<sqdot> |x - N_INIT| + |N_INIT|) \<sqdot> 2\<^sup>-\<^sup>5\<^sup>3\<close> from its exact value \<open>x\<close>.  So the new size
  is an integer nearest to \<open>x\<close> up to this error, and it is the rounding of \<open>x\<close>
  whenever \<open>x\<close> is not that close to the middle between two integers.
\<close>

lemma error_sum:
  fixes P U V PN M R R1 R2 R3 :: real
  assumes "P + U \<le> 3 * V" and "PN \<le> P + M" and "R \<le> R1 + R2 + R3"
    and "R3 \<le> V / 9007199254740992" and "R2 \<le> U / 9007199254740992"
    and "R1 \<le> PN / 9007199254740992"
  shows "R \<le> (4 * V + M) / 9007199254740992"
proof -
  have "R1 + R2 + R3 \<le> PN / 9007199254740992 + U / 9007199254740992 + V / 9007199254740992"
    using assms(4-6) by (intro add_mono)
  also have "\<dots> = (PN + U + V) / 9007199254740992" by (simp add: add_divide_distrib)
  also have "\<dots> \<le> (4 * V + M) / 9007199254740992"
    using assms(1,2) by (intro divide_right_mono) simp_all
  finally show ?thesis using assms(3) by simp
qed

lemma new_size_error:
  assumes "\<bar>nfe s\<bar> < 9007199254740992" and "\<bar>N_INIT s\<bar> < 9007199254740992"
  shows "\<bar>fadd (fmul (int_truediv (N_MIN s - N_INIT s) (MAX_NFE s)) (float_of_int (nfe s)))
               (float_of_int (N_INIT s))
          - new_size_exact s\<bar>
         \<le> (4 * \<bar>new_size_exact s - of_int (N_INIT s)\<bar> + \<bar>of_int (N_INIT s)\<bar>)
            / 9007199254740992"
proof -
  define q :: real where "q = of_int (N_MIN s - N_INIT s) / of_int (MAX_NFE s)"
  define n :: real where "n = of_int (nfe s)"
  define N :: real where "N = of_int (N_INIT s)"
  define u where "u = fl64 q * n"
  define v where "v = q * n"
  define p' where "p' = fl64 u"
  define r where "r = fl64 (p' + N)"
  have n: "float_of_int (nfe s) = n" and N: "float_of_int (N_INIT s) = N"
    using assms by (simp_all add: float_of_int_def n_def N_def fl64_of_int)
  have val: "fadd (fmul (int_truediv (N_MIN s - N_INIT s) (MAX_NFE s)) (float_of_int (nfe s)))
               (float_of_int (N_INIT s)) = r"
    by (simp add: n N fadd_def fmul_def int_truediv_def r_def p'_def u_def q_def)
  have ex: "new_size_exact s = v + N"
    by (simp add: new_size_exact_def v_def q_def n_def N_def)
  have "\<bar>fl64 q - q\<bar> * \<bar>n\<bar> \<le> \<bar>q\<bar> / 9007199254740992 * \<bar>n\<bar>"
    using fl64_rel_error [of q] by (intro mult_right_mono) simp_all
  then have e1: "\<bar>u - v\<bar> \<le> \<bar>v\<bar> / 9007199254740992"
    by (simp add: u_def v_def abs_mult flip: left_diff_distrib)
  have e2: "\<bar>p' - u\<bar> \<le> \<bar>u\<bar> / 9007199254740992"
    unfolding p'_def by (rule fl64_rel_error)
  have e3: "\<bar>r - (p' + N)\<bar> \<le> \<bar>p' + N\<bar> / 9007199254740992"
    unfolding r_def by (rule fl64_rel_error)
  have main: "\<bar>r - (v + N)\<bar> \<le> (4 * \<bar>v\<bar> + \<bar>N\<bar>) / 9007199254740992"
  proof (rule error_sum)
    have u: "\<bar>u\<bar> \<le> \<bar>v\<bar> + \<bar>v\<bar> / 9007199254740992" using e1 by linarith
    have p: "\<bar>p'\<bar> \<le> \<bar>u\<bar> + \<bar>u\<bar> / 9007199254740992" using e2 by linarith
    show "\<bar>p'\<bar> + \<bar>u\<bar> \<le> 3 * \<bar>v\<bar>" using u p by linarith
    show "\<bar>p' + N\<bar> \<le> \<bar>p'\<bar> + \<bar>N\<bar>" by (rule abs_triangle_ineq)
    show "\<bar>r - (v + N)\<bar> \<le> \<bar>r - (p' + N)\<bar> + \<bar>p' - u\<bar> + \<bar>u - v\<bar>" by linarith
    show "\<bar>u - v\<bar> \<le> \<bar>v\<bar> / 9007199254740992" by (rule e1)
    show "\<bar>p' - u\<bar> \<le> \<bar>u\<bar> / 9007199254740992" by (rule e2)
    show "\<bar>r - (p' + N)\<bar> \<le> \<bar>p' + N\<bar> / 9007199254740992" by (rule e3)
  qed
  from main show ?thesis by (simp add: val ex N_def)
qed

lemma new_size_near:
  assumes "\<bar>nfe s\<bar> < 9007199254740992" and "\<bar>N_INIT s\<bar> < 9007199254740992"
  shows "\<bar>of_int (new_size s) - new_size_exact s\<bar>
         \<le> 1/2 + (4 * \<bar>new_size_exact s - of_int (N_INIT s)\<bar> + \<bar>of_int (N_INIT s)\<bar>)
                  / 9007199254740992"
proof -
  let ?r = "fadd (fmul (int_truediv (N_MIN s - N_INIT s) (MAX_NFE s)) (float_of_int (nfe s)))
              (float_of_int (N_INIT s))"
  have "\<bar>of_int (py_round ?r) - ?r\<bar> \<le> 1/2" by (rule py_round_half)
  moreover note new_size_error [OF assms]
  ultimately show ?thesis unfolding new_size_def by linarith
qed

lemma new_size_agrees:
  assumes "\<bar>nfe s\<bar> < 9007199254740992" and "\<bar>N_INIT s\<bar> < 9007199254740992"
    and "\<bar>new_size_exact s - of_int (new_size_spec s)\<bar>
         + (4 * \<bar>new_size_exact s - of_int (N_INIT s)\<bar> + \<bar>of_int (N_INIT s)\<bar>)
             / 9007199254740992 < 1/2"
  shows "new_size s = new_size_spec s"
proof -
  let ?r = "fadd (fmul (int_truediv (N_MIN s - N_INIT s) (MAX_NFE s)) (float_of_int (nfe s)))
              (float_of_int (N_INIT s))"
  have "\<bar>?r - of_int (new_size_spec s)\<bar> < 1/2"
    using new_size_error [OF assms(1,2)] assms(3) by linarith
  then show ?thesis unfolding new_size_def by (rule py_round_near)
qed

text \<open>The new size at the inputs of the examples.\<close>

lemma new_size_500:
  assumes "N_INIT s = 20" and "N_MIN s = 4" and "MAX_NFE s = 1000" and "nfe s = 500"
  shows "new_size s = 12"
proof -
  have q: "int_truediv (- 16) 1000 = - (1152921504606847 / 72057594037927936)"
    unfolding int_truediv_def
    using fl64_eval [of "- 6" "real_of_int (- 16) / real_of_int 1000"] by (simp add: py_round_def)
  have n: "float_of_int 500 = 500" and i: "float_of_int 20 = 20"
    by (simp_all add: float_of_int_def fl64_numeral fl64_0)
  have p: "fmul (- (1152921504606847 / 72057594037927936)) 500 = - 8"
    unfolding fmul_def
    using fl64_eval [of "3" "- (1152921504606847 / 72057594037927936) * 500"] by (simp add: py_round_def)
  have r: "fadd (- 8) 20 = 12"
    unfolding fadd_def
    using fl64_eval [of "3" "- 8 + 20"] by (simp add: py_round_def)
  have "new_size s = py_round (fadd (fmul (int_truediv (- 16) 1000) (float_of_int 500)) (float_of_int 20))"
    using assms by (simp add: new_size_def)
  also have "\<dots> = py_round (12)"
    by (simp only: q n i p r)
  also have "\<dots> = 12"
    by (simp add: py_round_def)
  finally show ?thesis .
qed

lemma new_size_0:
  assumes "N_INIT s = 20" and "N_MIN s = 4" and "MAX_NFE s = 1000" and "nfe s = 0"
  shows "new_size s = 20"
proof -
  have q: "int_truediv (- 16) 1000 = - (1152921504606847 / 72057594037927936)"
    unfolding int_truediv_def
    using fl64_eval [of "- 6" "real_of_int (- 16) / real_of_int 1000"] by (simp add: py_round_def)
  have n: "float_of_int 0 = 0" and i: "float_of_int 20 = 20"
    by (simp_all add: float_of_int_def fl64_numeral fl64_0)
  have p: "fmul (- (1152921504606847 / 72057594037927936)) 0 = 0"
    unfolding fmul_def by (simp add: fl64_0)
  have r: "fadd 0 20 = 20"
    unfolding fadd_def
    using fl64_eval [of "4" "0 + 20"] by (simp add: py_round_def)
  have "new_size s = py_round (fadd (fmul (int_truediv (- 16) 1000) (float_of_int 0)) (float_of_int 20))"
    using assms by (simp add: new_size_def)
  also have "\<dots> = py_round (20)"
    by (simp only: q n i p r)
  also have "\<dots> = 20"
    by (simp add: py_round_def)
  finally show ?thesis .
qed

lemma new_size_75:
  assumes "N_INIT s = 18" and "N_MIN s = 4" and "MAX_NFE s = 100" and "nfe s = 75"
  shows "new_size s = 7"
proof -
  have q: "int_truediv (- 14) 100 = - (1261007895663739 / 9007199254740992)"
    unfolding int_truediv_def
    using fl64_eval [of "- 3" "real_of_int (- 14) / real_of_int 100"] by (simp add: py_round_def)
  have n: "float_of_int 75 = 75" and i: "float_of_int 18 = 18"
    by (simp_all add: float_of_int_def fl64_numeral fl64_0)
  have p: "fmul (- (1261007895663739 / 9007199254740992)) 75 = - (5910974510923777 / 562949953421312)"
    unfolding fmul_def
    using fl64_eval [of "3" "- (1261007895663739 / 9007199254740992) * 75"] by (simp add: py_round_def)
  have r: "fadd (- (5910974510923777 / 562949953421312)) 18 = 4222124650659839 / 562949953421312"
    unfolding fadd_def
    using fl64_eval [of "2" "- (5910974510923777 / 562949953421312) + 18"] by (simp add: py_round_def)
  have "new_size s = py_round (fadd (fmul (int_truediv (- 14) 100) (float_of_int 75)) (float_of_int 18))"
    using assms by (simp add: new_size_def)
  also have "\<dots> = py_round (4222124650659839 / 562949953421312)"
    by (simp only: q n i p r)
  also have "\<dots> = 7"
    by (simp add: py_round_def)
  finally show ?thesis .
qed

lemma new_size_1500:
  assumes "N_INIT s = 20" and "N_MIN s = 4" and "MAX_NFE s = 1000" and "nfe s = 1500"
  shows "new_size s = - 4"
proof -
  have q: "int_truediv (- 16) 1000 = - (1152921504606847 / 72057594037927936)"
    unfolding int_truediv_def
    using fl64_eval [of "- 6" "real_of_int (- 16) / real_of_int 1000"] by (simp add: py_round_def)
  have n: "float_of_int 1500 = 1500" and i: "float_of_int 20 = 20"
    by (simp_all add: float_of_int_def fl64_numeral fl64_0)
  have p: "fmul (- (1152921504606847 / 72057594037927936)) 1500 = - 24"
    unfolding fmul_def
    using fl64_eval [of "4" "- (1152921504606847 / 72057594037927936) * 1500"] by (simp add: py_round_def)
  have r: "fadd (- 24) 20 = - 4"
    unfolding fadd_def
    using fl64_eval [of "2" "- 24 + 20"] by (simp add: py_round_def)
  have "new_size s = py_round (fadd (fmul (int_truediv (- 16) 1000) (float_of_int 1500)) (float_of_int 20))"
    using assms by (simp add: new_size_def)
  also have "\<dots> = py_round (- 4)"
    by (simp only: q n i p r)
  also have "\<dots> = - 4"
    by (simp add: py_round_def)
  finally show ?thesis .
qed

text \<open>
  C3, as amended.  \<^verbatim>\<open>LSHADE.adjust_generation_size\<close> on a generation of members with
  unique ids, with \<open>MAX_NFE \<noteq> 0\<close>, counters below \<open>2\<^sup>5\<^sup>3\<close> and a binary64 number
  \<open>r_arc\<close>.  The new size is the
  rounding of \<open>((N_MIN - N_INIT) / MAX_NFE) \<sqdot> NFE + N_INIT\<close> as binary64 arithmetic
  evaluates it: an integer nearest to the exact value \<open>x\<close> up to the rounding error
  \<open>(4 \<sqdot> |x - N_INIT| + |N_INIT|) \<sqdot> 2\<^sup>-\<^sup>5\<^sup>3\<close>, and equal to \<open>round(x)\<close> whenever \<open>x\<close> is
  further than this error from the middle between two integers; for \<open>N_INIT = 20\<close>,
  \<open>N_MIN = 4\<close>, \<open>MAX_NFE = 1000\<close> and \<open>NFE = 500\<close> it is \<open>12\<close>, and \<open>8\<close> of \<open>20\<close>
  members are removed.  If the new size is at least \<open>|G|\<close>, generation and engine are
  unchanged.  If it is below \<open>|G|\<close>, exactly \<open>|G| - max(N_new, 0)\<close> members are removed,
  \<open>max(N_new, 0)\<close> remain in their order, and every removed member is below or equal to
  every remaining one under the member ordering.
\<close>

theorem C3_adjust_generation_size:
  assumes "MAX_NFE s \<noteq> 0" and "distinct (map mid g)" and "is_binary64 (r_arc s)"
  shows
    "(\<bar>nfe s\<bar> < 9007199254740992 \<and> \<bar>N_INIT s\<bar> < 9007199254740992 \<longrightarrow>
        \<bar>of_int (new_size s) - new_size_exact s\<bar>
          \<le> 1/2 + (4 * \<bar>new_size_exact s - of_int (N_INIT s)\<bar> + \<bar>of_int (N_INIT s)\<bar>)
                   / 9007199254740992)
     \<and> (\<bar>nfe s\<bar> < 9007199254740992 \<and> \<bar>N_INIT s\<bar> < 9007199254740992
          \<and> \<bar>new_size_exact s - of_int (new_size_spec s)\<bar>
              + (4 * \<bar>new_size_exact s - of_int (N_INIT s)\<bar> + \<bar>of_int (N_INIT s)\<bar>)
                  / 9007199254740992 < 1/2
          \<longrightarrow> new_size s = new_size_spec s)
     \<and> (N_INIT s = 20 \<and> N_MIN s = 4 \<and> MAX_NFE s = 1000 \<and> nfe s = 500 \<and> length g = 20
          \<longrightarrow> new_size s = 12 \<and> length (worst_members s g) = 8)
     \<and> (int (length g) \<le> new_size s \<longrightarrow> adjust_generation_size s g = Inr (s, g))
     \<and> (new_size s < int (length g) \<longrightarrow>
          adjust_generation_size s g =
            Inr (s\<lparr>archive := (archive s)
                     \<lparr>ea_size := fmul (float_of_int (new_size s)) (r_arc s)\<rparr>\<rparr>,
                 filter (\<lambda>x. x \<notin> set (worst_members s g)) g)
          \<and> set (worst_members s g) \<subseteq> set g
          \<and> length (worst_members s g) = length g - nat (new_size s)
          \<and> length (filter (\<lambda>x. x \<notin> set (worst_members s g)) g) = nat (new_size s)
          \<and> (\<forall>w \<in> set (worst_members s g).
               \<forall>k \<in> set (filter (\<lambda>x. x \<notin> set (worst_members s g)) g). member_le w k))"
proof -
  have ex: "new_size s = 12 \<and> length (worst_members s g) = 8"
    if "N_INIT s = 20 \<and> N_MIN s = 4 \<and> MAX_NFE s = 1000 \<and> nfe s = 500 \<and> length g = 20"
  proof -
    from that have n: "new_size s = 12" by (intro new_size_500) simp_all
    then have "length (worst_members s g) = length g - nat (new_size s)"
      using that by (intro adjust_generation_size_shrinks(2) assms(1,2)) simp_all
    with n that show ?thesis by simp
  qed
  show ?thesis
    using ex new_size_near [of s] new_size_agrees [of s]
      adjust_generation_size_unchanged [OF assms(1), of g]
      adjust_generation_size_shrinks [OF assms(1,2)]
    by blast
qed

lemma generation_of_ids: "distinct (map mid (generation_of n))"
proof -
  have "map mid (generation_of n) = map int [0..<n]"
    by (simp add: generation_of_def member_of_def)
  then show ?thesis by (simp add: distinct_map)
qed

theorem C3_adjust_generation_size_witness:
  "new_size (lshade_of 2 500) = 12
   \<and> new_size_spec (lshade_of 2 500) = 12
   \<and> length (worst_members (lshade_of 2 500) (generation_of 20)) = 8
   \<and> adjust_generation_size (lshade_of 2 500) (generation_of 20) =
       Inr ((lshade_of 2 500)\<lparr>archive := \<lparr>ea_items = [], ea_size = 24\<rparr>\<rparr>,
            filter (\<lambda>x. x \<notin> set (worst_members (lshade_of 2 500) (generation_of 20)))
              (generation_of 20))
   \<and> length (filter (\<lambda>x. x \<notin> set (worst_members (lshade_of 2 500) (generation_of 20)))
              (generation_of 20)) = 12
   \<and> adjust_generation_size (lshade_of 2 0) (generation_of 20)
       = Inr (lshade_of 2 0, generation_of 20)"
proof -
  have f: "MAX_NFE (lshade_of 2 n) = 1000" "N_INIT (lshade_of 2 n) = 20"
    "N_MIN (lshade_of 2 n) = 4" "nfe (lshade_of 2 n) = n" "r_arc (lshade_of 2 n) = 2"
    "archive (lshade_of 2 n) = \<lparr>ea_items = [], ea_size = 40\<rparr>" for n
    by (simp_all add: lshade_of_def shade_of_def shade.extend_def lshade.fields_def
        ExternalArchive_init_def py_round_def)
  have len: "length (generation_of 20) = 20" by (simp add: generation_of_def)
  have n500: "new_size (lshade_of 2 500) = 12" by (rule new_size_500) (simp_all add: f)
  have n0: "new_size (lshade_of 2 0) = 20" by (rule new_size_0) (simp_all add: f)
  have x500: "new_size_exact (lshade_of 2 500) = 12" by (simp add: new_size_exact_def f)
  have s500: "new_size_spec (lshade_of 2 500) = 12"
    by (simp add: new_size_spec_def x500 py_round_def)
  have cap: "fmul (float_of_int 12) 2 = 24"
    by (simp add: fmul_def float_of_int_def fl64_numeral)
  have r2: "is_binary64 2" by (simp add: is_binary64_def fl64_numeral)
  show ?thesis
    using C3_adjust_generation_size [of "lshade_of 2 500" "generation_of 20"]
      C3_adjust_generation_size [of "lshade_of 2 0" "generation_of 20"]
    by (simp add: f len n500 n0 s500 cap generation_of_ids r2)
qed

text \<open>
  The claim as it stands fails in two places.  For \<open>N_INIT = 18\<close>, \<open>N_MIN = 4\<close>,
  \<open>MAX_NFE = 100\<close> and \<open>NFE = 75\<close> the exact value is \<open>7.5\<close> and its rounding \<open>8\<close>, but
  the arithmetic of binary64 gives \<open>7.499999999999998\<close> and the new size \<open>7\<close>: a
  generation of eight members loses one.  And beyond the budget, for \<open>N_INIT = 20\<close>,
  \<open>MAX_NFE = 1000\<close> and \<open>NFE = 1500\<close>, the new size is \<open>-4\<close> and all five members of a
  generation of five are removed, not \<open>|G| - N_new = 9\<close>.
\<close>

theorem C3_adjust_generation_size_counterexample:
  "new_size (lshade_with 18 100 75) = 7
   \<and> new_size_spec (lshade_with 18 100 75) = 8
   \<and> map_sum id (\<lambda>(s, g). (ea_size (archive s), map mid g))
        (adjust_generation_size (lshade_with 18 100 75) (generation_of 8))
       = Inr (14, [1, 2, 3, 4, 5, 6, 7])
   \<and> new_size (lshade_of 2 1500) = - 4
   \<and> map mid (generation_of 5) = [0, 1, 2, 3, 4]
   \<and> map_sum id (\<lambda>(s, g). map mid g)
        (adjust_generation_size (lshade_of 2 1500) (generation_of 5))
       = Inr []"
proof -
  have f: "MAX_NFE (lshade_with a b n) = b" "N_INIT (lshade_with a b n) = a"
    "N_MIN (lshade_with a b n) = 4" "nfe (lshade_with a b n) = n"
    "r_arc (lshade_with a b n) = 2"
    "archive (lshade_with a b n) = \<lparr>ea_items = [], ea_size = 40\<rparr>" for a b n
    by (simp_all add: lshade_with_def lshade_of_def shade_of_def shade.extend_def
        lshade.fields_def ExternalArchive_init_def py_round_def)
  have g: "MAX_NFE (lshade_of 2 n) = 1000" "N_INIT (lshade_of 2 n) = 20"
    "N_MIN (lshade_of 2 n) = 4" "nfe (lshade_of 2 n) = n" for n
    by (simp_all add: lshade_of_def shade_of_def shade.extend_def lshade.fields_def)
  have n75: "new_size (lshade_with 18 100 75) = 7" by (rule new_size_75) (simp_all add: f)
  have s75: "new_size_spec (lshade_with 18 100 75) = 8"
    by (simp add: new_size_spec_def new_size_exact_def f py_round_def)
  have n1500: "new_size (lshade_of 2 1500) = - 4" by (rule new_size_1500) (simp_all add: g)
  have cap: "fmul (float_of_int 7) 2 = 14"
    by (simp add: fmul_def float_of_int_def fl64_numeral)
  have g8: "generation_of 8 = map (\<lambda>i. member_of (int i) (real i / 100)) [0, 1, 2, 3, 4, 5, 6, 7]"
    by (simp add: generation_of_def upt_rec numeral_nat)
  have g5: "generation_of 5 = map (\<lambda>i. member_of (int i) (real i / 100)) [0, 1, 2, 3, 4]"
    by (simp add: generation_of_def upt_rec numeral_nat)
  have a8: "map_sum id (\<lambda>(s, g). (ea_size (archive s), map mid g))
        (adjust_generation_size (lshade_with 18 100 75) (generation_of 8))
       = Inr (14, [1, 2, 3, 4, 5, 6, 7])"
    by (simp add: adjust_generation_size_def worst_members_def n75 f cap)
       (simp add: g8 sorted_members_def member_of_def rank_def Generation_remove_def)
  have a5: "map_sum id (\<lambda>(s, g). map mid g)
        (adjust_generation_size (lshade_of 2 1500) (generation_of 5))
       = Inr []"
    by (simp add: adjust_generation_size_def worst_members_def n1500 g)
       (simp add: g5 sorted_members_def member_of_def rank_def Generation_remove_def)
  have m5: "map mid (generation_of 5) = [0, 1, 2, 3, 4]"
    by (simp add: g5 member_of_def)
  from n75 s75 a8 n1500 m5 a5 show ?thesis by blast
qed

section \<open>Degenerate populations\<close>

text \<open>
  The exceptions that the helpers raise are not the two errors of the size checks.
\<close>

lemma no_size_error_Inr: "no_size_error (Inr x)"
  by (simp add: no_size_error_def)

lemma no_size_error_bindE:
  "no_size_error m \<Longrightarrow> (\<And>x. no_size_error (f x)) \<Longrightarrow> no_size_error (bindE m f)"
  by (cases m) (simp_all add: bindE_def no_size_error_def)

lemma no_size_error_D: "no_size_error res \<Longrightarrow> res = Inl e \<Longrightarrow> other_reason e"
  by (simp add: no_size_error_def)

lemma sample_ok: "no_size_error (sample k cands rs)"
proof (induction k arbitrary: cands rs)
  case 0
  show ?case by (simp add: no_size_error_Inr)
next
  case (Suc k)
  show ?case
  proof (cases "cands = []")
    case True
    then show ?thesis by (simp add: no_size_error_def other_reason_def)
  next
    case False
    then show ?thesis
      by (simp add: no_size_error_bindE Suc.IH no_size_error_Inr)
  qed
qed

lemma random_from_list_ok: "no_size_error (random_from_list xs k exclude rs)"
  unfolding random_from_list_def by (rule sample_ok)

lemma randrange_ok: "no_size_error (randrange n r)"
  by (simp add: randrange_def no_size_error_def other_reason_def)

lemma member_getitem_ok: "no_size_error (member_getitem m j)"
  by (simp add: member_getitem_def no_size_error_def other_reason_def)

lemma member_setitem_ok: "no_size_error (member_setitem m j v)"
  by (simp add: member_setitem_def no_size_error_def other_reason_def)

lemma choice_ok: "no_size_error (choice xs r)"
  by (simp add: choice_def no_size_error_def other_reason_def)

lemma py_getitem_ok: "no_size_error (py_getitem xs i)"
  by (simp add: py_getitem_def Let_def no_size_error_def other_reason_def)

lemma generate_F_ok: "no_size_error (generate_F MF_i f_min f_max zs)"
  by (induction zs) (simp_all add: Let_def no_size_error_def other_reason_def)

lemma no_size_error_TypeError: "no_size_error (Inl TypeError)"
  by (simp add: no_size_error_def other_reason_def)

lemma no_size_error_unpack: "no_size_error (Inl (ValueError ''not enough values to unpack''))"
  by (simp add: no_size_error_def other_reason_def)

lemmas helpers_ok =
  no_size_error_Inr no_size_error_TypeError no_size_error_unpack random_from_list_ok randrange_ok member_getitem_ok member_setitem_ok
  choice_ok py_getitem_ok generate_F_ok

lemma DE_crossover_ok:
  "no_size_error (DE_crossover Fv Cr member x_r0 x_r1 x_r2 j_rand us js trial)"
proof (induction js arbitrary: trial)
  case Nil
  show ?case by (simp add: no_size_error_Inr)
next
  case (Cons j js)
  show ?case
    by (simp del: bindE_def) (intro conjI impI no_size_error_bindE helpers_ok Cons.IH)
qed

lemma DE_trial_ok: "no_size_error (DE_trial Fv Cr generation d member)"
proof -
  have unpack: "no_size_error
      (case xs of
         [x_r0, x_r1, x_r2] \<Rightarrow>
           bindE (randrange (real (length (parameters member))) (de_j_raw d)) (\<lambda>j_rand.
           bindE (DE_crossover Fv Cr member x_r0 x_r1 x_r2 j_rand (de_uniform d)
                    [0..<length (parameters member)] (copy member)) (\<lambda>trial'.
           Inr (copy member, trial')))
       | _ \<Rightarrow> Inl (ValueError ''not enough values to unpack''))" for xs
    by (auto split: list.splits intro!: no_size_error_bindE helpers_ok DE_crossover_ok)
  show ?thesis
    unfolding DE_trial_def Let_def
    by (intro no_size_error_bindE random_from_list_ok unpack)
qed

lemma DE_mutate_loop_ok:
  "snd (DE_mutate_loop Fv Cr generation draws i ms) = Some e \<Longrightarrow> other_reason e"
proof (induction ms arbitrary: i)
  case Nil
  then show ?case by simp
next
  case (Cons m ms)
  show ?case
  proof (cases "DE_trial Fv Cr generation (draws i) m")
    case (Inl e')
    with Cons.prems have "e' = e" by simp
    with Inl show ?thesis using no_size_error_D [OF DE_trial_ok] by blast
  next
    case (Inr pair)
    with Cons.prems have "snd (DE_mutate_loop Fv Cr generation draws (Suc i) ms) = Some e"
      by (simp split: prod.splits)
    then show ?thesis by (rule Cons.IH)
  qed
qed

lemma SHADE_crossover_ok:
  "no_size_error (SHADE_crossover F_i CR_i member x_pbest x_r1 x_r2 j_rand us js trial)"
proof (induction js arbitrary: trial)
  case Nil
  show ?case by (simp add: no_size_error_Inr)
next
  case (Cons j js)
  show ?case
    by (simp del: bindE_def) (intro conjI impI no_size_error_bindE helpers_ok Cons.IH)
qed

lemma get_control_parameters_ok: "no_size_error (get_control_parameters s d)"
proof -
  have inner: "no_size_error
      (case MCR_i of
         None \<Rightarrow> Inl TypeError
       | Some mcr \<Rightarrow>
           bindE (generate_F MF_i (F_MIN s) (F_MAX s) (sd_cauchy d)) (\<lambda>F_i.
           Inr (clip (randn mcr (1/10) (sd_normal d)) 0 1, F_i)))" for MCR_i MF_i
    by (cases MCR_i) (auto intro!: no_size_error_bindE helpers_ok)
  show ?thesis
    unfolding get_control_parameters_def
    by (intro no_size_error_bindE helpers_ok inner)
qed

lemma sample_r1_and_r2_ok: "no_size_error (sample_r1_and_r2 s member generation d)"
proof -
  have second: "no_size_error (case ys of [x_r2] \<Rightarrow> Inr (x_r1, x_r2) | _ \<Rightarrow> Inl TypeError)"
    for ys :: "member list" and x_r1 :: member
    by (auto split: list.splits intro!: helpers_ok)
  have first: "no_size_error
      (case xs of
         [x_r1] \<Rightarrow>
           bindE (random_from_list (ea_items (archive s) @ generation) 1 [member, x_r1]
                    (sd_pick_r2 d)) (\<lambda>ys.
           case ys of [x_r2] \<Rightarrow> Inr (x_r1, x_r2) | _ \<Rightarrow> Inl TypeError)
       | _ \<Rightarrow> Inl TypeError)" for xs
    by (auto split: list.splits intro!: no_size_error_bindE helpers_ok second)
  show ?thesis
    unfolding sample_r1_and_r2_def
    by (intro no_size_error_bindE helpers_ok first)
qed

lemma pbest_member_ok: "no_size_error (pbest_member s generation r)"
  unfolding pbest_member_def by (rule choice_ok)

lemma SHADE_mutate_ok:
  "4 \<le> length generation \<Longrightarrow> no_size_error (SHADE_mutate s d member generation)"
  unfolding SHADE_mutate_def Let_def
  by (auto intro!: no_size_error_bindE helpers_ok get_control_parameters_ok
      sample_r1_and_r2_ok pbest_member_ok SHADE_crossover_ok)

text \<open>
  On four members both mutations return: differential evolution yields a pair for
  every member, SHADE a trial and the engine with the control parameters recorded.
\<close>

lemma DE_trial_four_members:
  "m \<in> set four_members \<Longrightarrow> DE_trial (1/5) (4/5) four_members de_draws_0 m = Inr (m, m)"
  by (auto simp: four_members_def member_of_def DE_trial_def random_from_list_def bindE_def
      delete_at_def randrange_def de_draws_0_def member_getitem_def member_setitem_def
      de_rand_1_def clip_def copy_def numeral_3_eq_3)

lemma DE_mutate_four_members:
  "DE_mutate (1/5) (4/5) four_members (all_draws de_draws_0)
     = (map (\<lambda>m. (m, m)) four_members, None)"
proof -
  have "DE_mutate_loop (1/5) (4/5) four_members (all_draws de_draws_0) i ms
      = (map (\<lambda>m. (m, m)) ms, None)" if "set ms \<subseteq> set four_members" for i ms
    using that
    by (induction ms arbitrary: i) (simp_all add: DE_trial_four_members all_draws_def)
  from this [of four_members 0] have "DE_mutate_loop (1/5) (4/5) four_members (all_draws de_draws_0) 0 four_members
      = (map (\<lambda>m. (m, m)) four_members, None)"
    by simp
  moreover have "length four_members = 4" by (simp add: four_members_def)
  ultimately show ?thesis by (simp add: DE_mutate_def)
qed

lemma member_of_simps:
  "mid (member_of i x) = i" "parameters (member_of i x) = [1/2]"
  by (simp_all add: member_of_def)

lemma SHADE_mutate_four_members:
  "SHADE_mutate (shade_of 2) shade_draws_0 (member_of 0 0) four_members
     = Inr (member_of 0 0,
            (shade_of 2)\<lparr>CR := [1 \<mapsto> 1/2, 0 \<mapsto> 1/2], F := [1 \<mapsto> 1/2, 0 \<mapsto> 1/2]\<rparr>)"
proof -
  let ?s = "(shade_of 2)\<lparr>CR := [1 \<mapsto> 1/2, 0 \<mapsto> 1/2], F := [1 \<mapsto> 1/2, 0 \<mapsto> 1/2]\<rparr>"
  have len: "length four_members = 4" by (simp add: four_members_def)
  have draws: "sd_pbest shade_draws_0 = 0" "sd_j_raw shade_draws_0 = 0"
    "sd_uniform shade_draws_0 = (\<lambda>j. 0)"
    by (simp_all add: shade_draws_0_def)
  have fields: "CR (shade_of 2) = [1 \<mapsto> 1/2]" "F (shade_of 2) = [1 \<mapsto> 1/2]"
    "ea_items (archive (shade_of 2)) = []" "p (shade_of 2) = 1/10"
    "state_sharing (shade_of 2) = False"
    by (simp_all add: shade_of_def ExternalArchive_init_def)
  have cp: "get_control_parameters (shade_of 2) shade_draws_0 = Inr (1/2, 1/2)"
    by (simp add: get_control_parameters_def shade_of_def HistoricalMemory_init_def
        randrange_def py_getitem_def bindE_def shade_draws_0_def randn_def randc_def clip_def)
  have r12: "sample_r1_and_r2 ?s (member_of 0 0) four_members shade_draws_0
      = Inr (member_of 1 (1/10), member_of 2 (1/5))"
    by (simp add: sample_r1_and_r2_def fields(3) random_from_list_def four_members_def
        member_of_def bindE_def delete_at_def shade_draws_0_def)
  have pb: "pbest_member ?s four_members 0 = Inr (member_of 3 (3/10))"
    by (simp add: pbest_member_def fields(4) len)
       (simp add: py_round_def sorted_members_reverse_def four_members_def
          member_of_def rank_def choice_def)
  have "SHADE_mutate (shade_of 2) shade_draws_0 (member_of 0 0) four_members
      = bindE (sample_r1_and_r2 ?s (member_of 0 0) four_members shade_draws_0) (\<lambda>(x_r1, x_r2).
        bindE (pbest_member ?s four_members 0) (\<lambda>x_pbest.
        bindE (randrange 1 0) (\<lambda>j_rand.
        bindE (SHADE_crossover (1/2) (1/2) (member_of 0 0) x_pbest x_r1 x_r2 j_rand (\<lambda>j. 0)
                 [0] (member_of 0 0)) (\<lambda>trial'.
        Inr (trial', ?s)))))"
    by (simp add: SHADE_mutate_def len cp fields member_of_simps draws copy_def Let_def
        bindE_def [of "Inr (1/2, 1/2)"] del: fun_upd_apply)
  also have "\<dots> = Inr (member_of 0 0, ?s)"
    by (simp add: r12 pb bindE_def [of "Inr x" for x] randrange_def)
       (simp add: member_of_def bindE_def member_getitem_def member_setitem_def
          de_current_to_best_1_def halving_def)
  finally show ?thesis .
qed

text \<open>
  C5, as amended.  On a generation of fewer than three members
  \<^verbatim>\<open>DifferentialEvolution.mutate\<close> yields no candidate and ends with the
  \<^verbatim>\<open>ValueError\<close> whose message is \<^verbatim>\<open>generation size must be at least 3 or higher.\<close>;
  on a generation of fewer than four members \<^verbatim>\<open>SHADE.mutate\<close> raises the
  \<^verbatim>\<open>ValueError\<close> with \<^verbatim>\<open>generation size must be at least 4 or higher.\<close>  On larger
  generations neither ends with that error.
\<close>

theorem C5_degenerate_population:
  "(length generation < 3 \<longrightarrow>
      DE_mutate Fv Cr generation draws
        = ([], Some (ValueError ''generation size must be at least 3 or higher.'')))
   \<and> (3 \<le> length generation \<longrightarrow>
      snd (DE_mutate Fv Cr generation draws)
        \<noteq> Some (ValueError ''generation size must be at least 3 or higher.''))
   \<and> (length generation < 4 \<longrightarrow>
      SHADE_mutate s d member generation
        = Inl (ValueError ''generation size must be at least 4 or higher.''))
   \<and> (4 \<le> length generation \<longrightarrow>
      SHADE_mutate s d member generation
        \<noteq> Inl (ValueError ''generation size must be at least 4 or higher.''))"
proof -
  have de: "snd (DE_mutate Fv Cr generation draws)
      \<noteq> Some (ValueError ''generation size must be at least 3 or higher.'')"
    if "3 \<le> length generation"
  proof
    assume "snd (DE_mutate Fv Cr generation draws)
      = Some (ValueError ''generation size must be at least 3 or higher.'')"
    with that have "snd (DE_mutate_loop Fv Cr generation draws 0 generation)
      = Some (ValueError ''generation size must be at least 3 or higher.'')"
      by (simp add: DE_mutate_def)
    then have "other_reason (ValueError ''generation size must be at least 3 or higher.'')"
      by (rule DE_mutate_loop_ok)
    then show False by (simp add: other_reason_def)
  qed
  have sh: "SHADE_mutate s d member generation
      \<noteq> Inl (ValueError ''generation size must be at least 4 or higher.'')"
    if "4 \<le> length generation"
  proof
    assume "SHADE_mutate s d member generation
      = Inl (ValueError ''generation size must be at least 4 or higher.'')"
    with SHADE_mutate_ok [OF that, of s d member]
    have "other_reason (ValueError ''generation size must be at least 4 or higher.'')"
      by (rule no_size_error_D)
    then show False by (simp add: other_reason_def)
  qed
  show ?thesis using de sh by (simp add: DE_mutate_def SHADE_mutate_def)
qed

theorem C5_degenerate_population_witness:
  "DE_mutate (1/5) (4/5) [member_of 0 0, member_of 1 (1/10)] (all_draws de_draws_0)
     = ([], Some (ValueError ''generation size must be at least 3 or higher.''))
   \<and> snd (DE_mutate (1/5) (4/5) four_members (all_draws de_draws_0))
     \<noteq> Some (ValueError ''generation size must be at least 3 or higher.'')
   \<and> SHADE_mutate (shade_of 2) shade_draws_0 (member_of 0 0)
        [member_of 0 0, member_of 1 (1/10), member_of 2 (1/5)]
     = Inl (ValueError ''generation size must be at least 4 or higher.'')
   \<and> SHADE_mutate (shade_of 2) shade_draws_0 (member_of 0 0) four_members
     \<noteq> Inl (ValueError ''generation size must be at least 4 or higher.'')"
proof -
  have len: "length four_members = 4" by (simp add: four_members_def)
  show ?thesis
    using C5_degenerate_population
        [of "[member_of 0 0, member_of 1 (1/10)]" "1/5" "4/5" "all_draws de_draws_0"
            "shade_of 2" shade_draws_0 "member_of 0 0"]
      C5_degenerate_population
        [of "[member_of 0 0, member_of 1 (1/10), member_of 2 (1/5)]" "1/5" "4/5"
            "all_draws de_draws_0" "shade_of 2" shade_draws_0 "member_of 0 0"]
      C5_degenerate_population
        [of four_members "1/5" "4/5" "all_draws de_draws_0" "shade_of 2" shade_draws_0
            "member_of 0 0"]
    by (simp add: len)
qed

text \<open>
  The claim as it stands names the message \<^verbatim>\<open>generation size must be at least 3\<close>; on
  two members the generator ends with the longer message of the source.
\<close>

theorem C5_degenerate_population_counterexample:
  "DE_mutate (1/5) (4/5) [member_of 0 0, member_of 1 (1/10)] (all_draws de_draws_0)
     = ([], Some (ValueError ''generation size must be at least 3 or higher.''))
   \<and> snd (DE_mutate (1/5) (4/5) [member_of 0 0, member_of 1 (1/10)] (all_draws de_draws_0))
     \<noteq> Some (ValueError ''generation size must be at least 3'')"
  by (simp add: DE_mutate_def)


end
